theory Spec2Isabelle
  imports Main "HOL-Library.Word"
begin

unbundle bit_operations_syntax

section \<open>Shared data: status codes, metadata, media buffers\<close>

text \<open>
  The receive side of the TRTP transport: \<^verbatim>\<open>aah_decoder_pump.cpp\<close> (the decoder pump)
  and \<^verbatim>\<open>aah_rx_player_substream.cpp\<close> (the substream reassembler).

  \<^verbatim>\<open>status_t\<close> values are compared for equality only. The constants the two files
  name are constructors; \<open>ERROR n\<close> stands for any other status a collaborator returns.
  \<open>NO_ERROR\<close> is the same constant as \<open>OK\<close>.
\<close>

datatype status_t =
    OK
  | NO_MEMORY
  | BAD_VALUE
  | INVALID_OPERATION
  | UNKNOWN_ERROR
  | INFO_FORMAT_CHANGED
  | ERROR int

text \<open>
  A failed \<^verbatim>\<open>CHECK\<close> aborts the process. Reading a local that no call has written and
  calling through a NULL pointer are undefined in C++; the model makes each a result of
  its own instead of choosing a value.
\<close>

datatype abort = CHECK_failed | Uninitialised_read | Null_dereference

type_synonym byte = "8 word"

text \<open>
  \<^verbatim>\<open>MetaData\<close> is a key/value bag. The keys the two files use are the fields; a key
  that was never set is \<open>None\<close>, and \<^verbatim>\<open>findInt32\<close> and its siblings return false on it.
\<close>

record MetaData =
  kKeyMIMEType :: "string option"
  kKeyChannelCount :: "32 word option"
  kKeySampleRate :: "32 word option"
  kKeyTime :: "64 word option"
  kKeyESDS :: "byte list option"

definition new_MetaData :: MetaData where
  "new_MetaData = \<lparr> kKeyMIMEType = None, kKeyChannelCount = None, kKeySampleRate = None,
                     kKeyTime = None, kKeyESDS = None \<rparr>"

text \<open>
  A \<^verbatim>\<open>MediaBuffer\<close> owns \<open>size\<close> bytes and a metadata bag. \<^verbatim>\<open>new MediaBuffer(n)\<close>
  leaves the bytes unwritten; the model starts them at zero, and every byte of a buffer
  that is handed on has been overwritten by then.
\<close>

record MediaBuffer =
  mb_data :: "byte list"
  mb_meta :: MetaData

definition new_MediaBuffer :: "nat \<Rightarrow> MediaBuffer" where
  "new_MediaBuffer n = \<lparr> mb_data = replicate n 0, mb_meta = new_MetaData \<rparr>"

definition MEDIA_MIMETYPE_AUDIO_MPEG :: string where
  "MEDIA_MIMETYPE_AUDIO_MPEG = ''audio/mpeg''"

definition MEDIA_MIMETYPE_AUDIO_AAC :: string where
  "MEDIA_MIMETYPE_AUDIO_AAC = ''audio/mp4a-latm''"

section \<open>The decoder pump (\<^verbatim>\<open>aah_decoder_pump.cpp\<close>)\<close>

definition kLongDecodeErrorThreshold :: int where
  "kLongDecodeErrorThreshold = 1000000"

definition kMaxLongErrorsBeforeFatal :: nat where
  "kMaxLongErrorsBeforeFatal = 3"

definition kMaxErrorsBeforeFatal :: nat where
  "kMaxErrorsBeforeFatal = 60"

text \<open>
  The pump's members. \<open>'tr\<close> is \<^verbatim>\<open>LinearTransform\<close>, compared by \<^verbatim>\<open>memcmp\<close> and applied by
  \<^verbatim>\<open>doForwardTransform\<close>, both outside these files. \<open>decoder\<close> and \<open>renderer\<close> say
  whether \<^verbatim>\<open>decoder_\<close> and \<^verbatim>\<open>renderer_\<close> are non-NULL: the OMX codec and the timed audio
  track are collaborators, and the results of the calls on them are inputs of the
  functions that make the calls. The same holds for \<^verbatim>\<open>thread_->exitPending()\<close>.
\<close>

record 'tr AAH_DecoderPump =
  thread_status :: status_t
  renderer :: bool
  last_queued_pts_valid :: bool
  last_queued_pts :: "64 word"
  last_ts_transform_valid :: bool
  last_ts_transform :: 'tr
  last_volume :: byte
  in_queue :: "MediaBuffer list"
  decoder :: bool
  format :: "MetaData option"
  format_channels :: "32 word"
  format_sample_rate :: "32 word"

text \<open>
  The constructor. \<open>last_ts_transform\<close>, \<open>format_channels\<close> and \<open>format_sample_rate\<close>
  are not initialised by it; they are read only after they have been written, and the
  caller of the model provides their starting content.
\<close>

definition new_AAH_DecoderPump :: "'tr \<Rightarrow> 32 word \<Rightarrow> 32 word \<Rightarrow> 'tr AAH_DecoderPump" where
  "new_AAH_DecoderPump tr0 ch0 sr0 =
     \<lparr> thread_status = OK, renderer = False, last_queued_pts_valid = False,
       last_queued_pts = 0, last_ts_transform_valid = False, last_ts_transform = tr0,
       last_volume = 0xFF, in_queue = [], decoder = False, format = None,
       format_channels = ch0, format_sample_rate = sr0 \<rparr>"

text \<open>\<^verbatim>\<open>queueForDecode\<close>: a NULL buffer is \<open>None\<close>.\<close>

definition queueForDecode ::
  "'tr AAH_DecoderPump \<Rightarrow> MediaBuffer option \<Rightarrow> status_t \<times> 'tr AAH_DecoderPump" where
  "queueForDecode p buf =
     (case buf of
        None \<Rightarrow> (BAD_VALUE, p)
      | Some b \<Rightarrow>
          if thread_status p \<noteq> OK then (thread_status p, p)
          else (OK, p\<lparr>in_queue := in_queue p @ [b]\<rparr>))"

text \<open>
  What the timed audio track answers during one \<^verbatim>\<open>queueToRenderer\<close>: whether
  \<^verbatim>\<open>new TimedAudioTrack\<close> gave an object, and the results of \<^verbatim>\<open>set\<close>,
  \<^verbatim>\<open>setMediaTimeTransform\<close>, \<^verbatim>\<open>allocateTimedBuffer\<close> and \<^verbatim>\<open>queueTimedBuffer\<close>.
\<close>

record track_answers =
  track_new :: bool
  track_set :: status_t
  track_setMediaTimeTransform :: status_t
  track_allocateTimedBuffer :: status_t
  track_queueTimedBuffer :: status_t

definition queueToRenderer ::
  "track_answers \<Rightarrow> 'tr AAH_DecoderPump \<Rightarrow> MediaBuffer \<Rightarrow> abort + 'tr AAH_DecoderPump" where
  "queueToRenderer t p decoded_sample =
     (case kKeyTime (mb_meta decoded_sample) of
        None \<Rightarrow> Inl CHECK_failed
      | Some ts \<Rightarrow>
          (case (if renderer p then Inr p
                 else if \<not> track_new t then Inr p
                 else if track_set t \<noteq> OK then Inr p
                 else if \<not> last_ts_transform_valid p then Inl CHECK_failed
                 else if track_setMediaTimeTransform t \<noteq> OK then Inr p
                 else Inr (p\<lparr>renderer := True\<rparr>)) of
             Inl e \<Rightarrow> Inl e
           | Inr p1 \<Rightarrow>
               if renderer p1 then
                 (if track_allocateTimedBuffer t \<noteq> OK then Inr p1
                  else if track_queueTimedBuffer t \<noteq> OK then Inr p1
                  else Inr (p1\<lparr>last_queued_pts_valid := True, last_queued_pts := ts\<rparr>))
               else Inr p1))"

definition stopAndCleanupRenderer :: "'tr AAH_DecoderPump \<Rightarrow> 'tr AAH_DecoderPump" where
  "stopAndCleanupRenderer p = (if \<not> renderer p then p else p\<lparr>renderer := False\<rparr>)"

definition setRenderTSTransform :: "'tr AAH_DecoderPump \<Rightarrow> 'tr \<Rightarrow> 'tr AAH_DecoderPump" where
  "setRenderTSTransform p tr =
     (if last_ts_transform_valid p \<and> tr = last_ts_transform p then p
      else p\<lparr>last_ts_transform := tr, last_ts_transform_valid := True\<rparr>)"

definition setRenderVolume :: "'tr AAH_DecoderPump \<Rightarrow> byte \<Rightarrow> 'tr AAH_DecoderPump" where
  "setRenderVolume p volume =
     (if volume = last_volume p then p else p\<lparr>last_volume := volume\<rparr>)"

text \<open>
  \<^verbatim>\<open>isAboutToUnderflow\<close>. \<open>getCommonTime\<close> is what the common clock answers (\<open>None\<close>
  when its status is not \<open>OK\<close>), \<open>doForwardTransform\<close> the transform's forward map
  (\<open>None\<close> when it returns false). The sum is computed in \<^verbatim>\<open>int64_t\<close>: it wraps, and the
  comparison with zero is signed.
\<close>

definition isAboutToUnderflow ::
  "64 word option \<Rightarrow> ('tr \<Rightarrow> 64 word \<Rightarrow> 64 word option) \<Rightarrow>
   'tr AAH_DecoderPump \<Rightarrow> 64 word \<Rightarrow> bool" where
  "isAboutToUnderflow getCommonTime doForwardTransform p threshold =
     (if \<not> last_queued_pts_valid p \<or> \<not> last_ts_transform_valid p then False
      else case getCommonTime of
        None \<Rightarrow> False
      | Some tt_now \<Rightarrow>
          (case doForwardTransform (last_ts_transform p) (last_queued_pts p) of
             None \<Rightarrow> False
           | Some last_queued_pts_tt \<Rightarrow> 0 <s tt_now + threshold - last_queued_pts_tt))"

text \<open>
  One pass of the \<^verbatim>\<open>while\<close> loop of \<^verbatim>\<open>workThread\<close>. A \<open>decode_step\<close> is what the pass
  gets from outside: the status and the buffer of \<^verbatim>\<open>decoder_->read\<close>, the duration the
  timer measured, and the answers of the audio track. The two counters are
  \<^verbatim>\<open>uint32_t\<close>: the increment wraps.
\<close>

record decode_step =
  read_res :: status_t
  read_bufOut :: "MediaBuffer option"
  durationUsecs :: int
  track :: track_answers

datatype loop_ctl = Continue | Break

record 'tr work_state =
  pump :: "'tr AAH_DecoderPump"
  consecutive_long_errors :: nat
  consecutive_errors :: nat

definition workIter ::
  "decode_step \<Rightarrow> 'tr work_state \<Rightarrow> abort + loop_ctl \<times> 'tr work_state" where
  "workIter d w =
     (let p1 = (if read_res d = INFO_FORMAT_CHANGED then stopAndCleanupRenderer (pump w)
                else pump w);
          res = (if read_res d = INFO_FORMAT_CHANGED then OK else read_res d)
      in
      if res \<noteq> OK then
        (let ce = (consecutive_errors w + 1) mod 2 ^ 32;
             cle = (if durationUsecs d \<ge> kLongDecodeErrorThreshold
                    then (consecutive_long_errors w + 1) mod 2 ^ 32
                    else consecutive_long_errors w)
         in
         if read_bufOut d \<noteq> None then Inl CHECK_failed
         else if ce \<ge> kMaxErrorsBeforeFatal \<or> cle \<ge> kMaxLongErrorsBeforeFatal then
           Inr (Break, \<lparr> pump = p1\<lparr>thread_status := res\<rparr>,
                         consecutive_long_errors = cle, consecutive_errors = ce \<rparr>)
         else
           Inr (Continue, \<lparr> pump = p1, consecutive_long_errors = cle,
                            consecutive_errors = ce \<rparr>))
      else
        (case read_bufOut d of
           None \<Rightarrow> Inr (Continue, w\<lparr>pump := p1\<rparr>)
         | Some bufOut \<Rightarrow>
             (case queueToRenderer (track d) p1 bufOut of
                Inl e \<Rightarrow> Inl e
              | Inr p2 \<Rightarrow>
                  Inr (Continue, \<lparr> pump = p2, consecutive_long_errors = 0,
                                   consecutive_errors = 0 \<rparr>))))"

text \<open>
  The loop over the passes that happen. Each pass is paired with what
  \<^verbatim>\<open>thread_->exitPending()\<close> answers at the loop head. When the passes given are used up
  the thread is still inside the loop (\<open>In_loop\<close>); it has left it (\<open>Exited\<close>) after a
  \<open>Break\<close> or an exit request, and then stops the decoder and drops the renderer.
\<close>

datatype 'tr work_result = In_loop "'tr work_state" | Exited "'tr AAH_DecoderPump"

fun workLoop :: "(bool \<times> decode_step) list \<Rightarrow> 'tr work_state \<Rightarrow> abort + 'tr work_result" where
  "workLoop [] w = Inr (In_loop w)"
| "workLoop ((exitPending, d) # ds) w =
     (if exitPending then Inr (Exited (stopAndCleanupRenderer (pump w)))
      else case workIter d w of
        Inl e \<Rightarrow> Inl e
      | Inr (Break, w') \<Rightarrow> Inr (Exited (stopAndCleanupRenderer (pump w')))
      | Inr (Continue, w') \<Rightarrow> workLoop ds w')"

text \<open>\<^verbatim>\<open>workThread\<close>; \<open>start_res\<close> is the result of \<^verbatim>\<open>decoder_->start\<close>.\<close>

definition workThread ::
  "status_t \<Rightarrow> (bool \<times> decode_step) list \<Rightarrow> 'tr AAH_DecoderPump \<Rightarrow> abort + 'tr work_result" where
  "workThread start_res ds p =
     (if \<not> decoder p then Inl CHECK_failed
      else if format p = None then Inl CHECK_failed
      else if start_res \<noteq> OK then Inr (Exited (p\<lparr>thread_status := start_res\<rparr>))
      else workLoop ds \<lparr> pump = p\<lparr>thread_status := start_res\<rparr>,
                         consecutive_long_errors = 0, consecutive_errors = 0 \<rparr>)"

text \<open>
  \<^verbatim>\<open>init\<close>. \<open>create_ok\<close> says whether \<^verbatim>\<open>OMXCodec::Create\<close> returns a codec, \<open>run_res\<close>
  is the result of \<^verbatim>\<open>thread_->run\<close>. The function ends in \<^verbatim>\<open>return OK\<close> on every path
  that reaches \<^verbatim>\<open>bailout\<close>.
\<close>

definition init ::
  "bool \<Rightarrow> status_t \<Rightarrow> 'tr AAH_DecoderPump \<Rightarrow> MetaData option \<Rightarrow>
   abort + status_t \<times> 'tr AAH_DecoderPump" where
  "init create_ok run_res p params =
     (if decoder p then Inr (OK, p)
      else case params of
        None \<Rightarrow> Inr (BAD_VALUE, p)
      | Some m \<Rightarrow>
          (case kKeyChannelCount m of
             None \<Rightarrow> Inr (BAD_VALUE, p)
           | Some ch \<Rightarrow>
               (case kKeySampleRate m of
                  None \<Rightarrow> Inr (BAD_VALUE, p\<lparr>format_channels := ch\<rparr>)
                | Some sr \<Rightarrow>
                    if thread_status p \<noteq> OK then Inl CHECK_failed
                    else
                      (let p1 = p\<lparr>format_channels := ch, format_sample_rate := sr,
                                   format := Some m, decoder := create_ok\<rparr>;
                           ret_val = (if \<not> create_ok then UNKNOWN_ERROR else run_res)
                       in
                       if ret_val \<noteq> OK then Inr (OK, p1\<lparr>decoder := False, format := None\<rparr>)
                       else Inr (OK, p1)))))"

text \<open>
  \<^verbatim>\<open>shutdown\<close> and \<^verbatim>\<open>shutdown_l\<close>. The call waits for the work thread, whose last act
  is \<^verbatim>\<open>stopAndCleanupRenderer\<close>; without a thread there is no renderer either.
\<close>

definition shutdown_l :: "'tr AAH_DecoderPump \<Rightarrow> status_t \<times> 'tr AAH_DecoderPump" where
  "shutdown_l p =
     (OK, p\<lparr> renderer := False, in_queue := [], last_queued_pts_valid := False,
             last_ts_transform_valid := False, last_volume := 0xFF, thread_status := OK,
             decoder := False, format := None \<rparr>)"

definition shutdown :: "'tr AAH_DecoderPump \<Rightarrow> status_t \<times> 'tr AAH_DecoderPump" where
  "shutdown p = shutdown_l p"

text \<open>
  \<^verbatim>\<open>read\<close>, the pump as the codec's source. \<open>buffer_ok\<close> says that the out pointer is
  not NULL; \<open>exitPending\<close> is the answer of \<^verbatim>\<open>thread_->exitPending()\<close>. With no exit
  pending and an empty queue the call stays in \<^verbatim>\<open>thread_cond_.wait\<close>: \<open>Waits\<close>.
\<close>

datatype read_result = Waits | Returns status_t "MediaBuffer option"

definition read ::
  "bool \<Rightarrow> bool \<Rightarrow> 'tr AAH_DecoderPump \<Rightarrow> read_result \<times> 'tr AAH_DecoderPump" where
  "read buffer_ok exitPending p =
     (if \<not> buffer_ok then (Returns BAD_VALUE None, p)
      else if \<not> exitPending \<and> in_queue p = [] then (Waits, p)
      else if \<not> exitPending then
        (case in_queue p of
           [] \<Rightarrow> (Returns INVALID_OPERATION None, p)
         | b # rest \<Rightarrow> (Returns OK (Some b), p\<lparr>in_queue := rest\<rparr>))
      else (Returns INVALID_OPERATION None, p))"

section \<open>The substream reassembler (\<^verbatim>\<open>aah_rx_player_substream.cpp\<close>)\<close>

text \<open>Constants of \<^verbatim>\<open>aah_tx_packet.h\<close>.\<close>

definition kHeaderTypeAudio :: byte where "kHeaderTypeAudio = 1"
definition kHeaderTypeVideo :: byte where "kHeaderTypeVideo = 2"
definition kHeaderTypeSubpicture :: byte where "kHeaderTypeSubpicture = 3"
definition kHeaderTypeControl :: byte where "kHeaderTypeControl = 4"

definition kFlag_TSTransformPresent :: byte where "kFlag_TSTransformPresent = 0x02"
definition kFlag_TSValid :: byte where "kFlag_TSValid = 0x01"

definition kFlag_AuxLengthPresent :: byte where "kFlag_AuxLengthPresent = 0x10"
definition kFlag_RandomAccessPoint :: byte where "kFlag_RandomAccessPoint = 0x08"

definition kCodecMPEG1Audio :: byte where "kCodecMPEG1Audio = 3"
definition kCodecAACAudio :: byte where "kCodecAACAudio = 4"

text \<open>
  \<^verbatim>\<open>uint32_t\<close> quantities are naturals below \<open>2 ^ 32\<close>; where the source adds or
  subtracts two of them the wrap-around is written out. \<^verbatim>\<open>U32_AT\<close> reads four bytes,
  most significant first. A payload is the list of its bytes, and its length is the
  source's \<^verbatim>\<open>amt\<close>.
\<close>

definition add32 :: "nat \<Rightarrow> nat \<Rightarrow> nat" where
  "add32 a b = (a + b) mod 2 ^ 32"

definition sub32 :: "nat \<Rightarrow> nat \<Rightarrow> nat" where
  "sub32 a b = (a + 2 ^ 32 - b mod 2 ^ 32) mod 2 ^ 32"

definition U32_AT :: "byte list \<Rightarrow> nat \<Rightarrow> nat" where
  "U32_AT buf off =
     unat (buf ! off) * 2 ^ 24 + unat (buf ! (off + 1)) * 2 ^ 16 +
     unat (buf ! (off + 2)) * 2 ^ 8 + unat (buf ! (off + 3))"

text \<open>
  The members of \<^verbatim>\<open>Substream\<close>. \<open>decoder_pump\<close> is \<^verbatim>\<open>decoder_\<close>, the pump the substream
  owns (\<open>None\<close> for NULL); \<open>substream_meta\<close> is NULL until the first unit completes.
\<close>

record 'tr Substream =
  ssrc :: "32 word"
  substream_details_known :: bool
  buffer_in_progress :: "MediaBuffer option"
  status :: status_t
  codec_mime_type :: string
  decoder_pump :: "'tr AAH_DecoderPump option"
  expected_buffer_size :: nat
  buffer_filled :: nat
  waiting_for_rap :: bool
  aux_data_in_progress :: "byte list"
  aux_data_expected_size :: nat
  substream_meta :: "MetaData option"
  substream_type :: byte
  codec_type :: byte

definition cleanupBufferInProgress :: "'tr Substream \<Rightarrow> 'tr Substream" where
  "cleanupBufferInProgress s =
     s\<lparr> buffer_in_progress := None, expected_buffer_size := 0, buffer_filled := 0,
        waiting_for_rap := True, aux_data_in_progress := [], aux_data_expected_size := 0 \<rparr>"

definition cleanupDecoder :: "'tr Substream \<Rightarrow> 'tr Substream" where
  "cleanupDecoder s =
     (case decoder_pump s of
        None \<Rightarrow> s
      | Some p \<Rightarrow> s\<lparr>decoder_pump := Some (snd (shutdown p))\<rparr>)"

text \<open>
  The constructor: \<open>pump0\<close> is the pump it allocates, \<open>type0\<close> and \<open>codec0\<close> the
  content of the two members it leaves unwritten.
\<close>

definition new_Substream ::
  "32 word \<Rightarrow> 'tr AAH_DecoderPump \<Rightarrow> byte \<Rightarrow> byte \<Rightarrow> 'tr Substream" where
  "new_Substream ssrc0 pump0 type0 codec0 =
     cleanupBufferInProgress
       \<lparr> ssrc = ssrc0, substream_details_known = False, buffer_in_progress = None,
         status = OK, codec_mime_type = [], decoder_pump = Some pump0,
         expected_buffer_size = 0, buffer_filled = 0, waiting_for_rap = True,
         aux_data_in_progress = [], aux_data_expected_size = 0, substream_meta = None,
         substream_type = type0, codec_type = codec0 \<rparr>"

definition Substream_shutdown :: "'tr Substream \<Rightarrow> 'tr Substream" where
  "Substream_shutdown s =
     cleanupDecoder (cleanupBufferInProgress (s\<lparr>substream_meta := None, status := OK\<rparr>))"

definition shouldAbort :: "'tr Substream \<Rightarrow> bool" where
  "shouldAbort s = (status s \<noteq> OK)"

definition setupSubstreamType :: "'tr Substream \<Rightarrow> byte \<Rightarrow> byte \<Rightarrow> bool \<times> 'tr Substream" where
  "setupSubstreamType s substream_type' codec_type' =
     (if substream_details_known s then
        (if codec_type' \<noteq> codec_type s then (False, s) else (True, s))
      else if codec_type' = kCodecMPEG1Audio \<or> codec_type' = kCodecAACAudio then
        (True, s\<lparr>substream_type := substream_type', codec_type := codec_type',
                 substream_details_known := True\<rparr>)
      else (False, s))"

text \<open>
  \<^verbatim>\<open>processPayloadStart\<close> returns nothing; each of its early returns logs a message.
  The model names the return taken. The function is given in three parts: the header
  parse up to the three audio bytes, which writes no member (\<open>parseTRTPHeader\<close>, with
  its locals as a record), the part from \<^verbatim>\<open>setupSubstreamType\<close> to the copy of the
  payload bytes (\<open>storePayloadStart\<close>), and the whole (\<open>processPayloadStart\<close>).
\<close>

datatype drop_reason =
    Payload_too_short
  | Unexpected_version
  | Unhandled_header_type
  | Header_type_mismatch
  | Timestamp_truncated
  | Length_too_short
  | Transform_truncated
  | Length_too_short_for_audio
  | Header_fragmented
  | Codec_rejected
  | Waiting_for_RAP
  | Length_too_short_for_aux
  | Header_fragmented_at_aux
  | Aux_exceeds_length
  | Zero_length_access_unit
  | Extra_data
  | Allocation_failed

datatype outcome = Dropped drop_reason | Stored_aux_only | Stored

record trtp_header =
  hdr_header_type :: byte
  hdr_ts_valid :: bool
  hdr_trtp_len :: nat
  hdr_ts :: "64 word"
  hdr_min_length :: nat
  hdr_parse_offset :: nat
  hdr_trtp_header_len :: nat
  hdr_codec_type :: byte
  hdr_flags :: byte
  hdr_volume :: byte

definition parseTRTPHeader ::
  "'tr Substream \<Rightarrow> byte list \<Rightarrow> 32 word \<Rightarrow> drop_reason + trtp_header" where
  "parseTRTPHeader s buf ts_lower =
     (let amt = length buf in
      if amt < 6 then Inl Payload_too_short
      else if buf ! 0 \<noteq> 0x01 then Inl Unexpected_version
      else
        (let header_type = drop_bit 4 (buf ! 1) AND 0xF in
         if header_type \<noteq> kHeaderTypeAudio then Inl Unhandled_header_type
         else if substream_details_known s \<and> header_type \<noteq> substream_type s
           then Inl Header_type_mismatch
         else
           (let ts_valid = (buf ! 1 AND kFlag_TSValid \<noteq> 0);
                min_length1 = (if ts_valid then 10 else 6);
                trtp_len = U32_AT buf 2
            in
            if ts_valid \<and> amt < min_length1 then Inl Timestamp_truncated
            else if trtp_len < min_length1 then Inl Length_too_short
            else
              (let ts = (if ts_valid
                         then push_bit 32 (word_of_nat (U32_AT buf 6) :: 64 word) OR scast ts_lower
                         else 0);
                   parse_offset1 = (if ts_valid then 10 else 6);
                   tf = (buf ! 1 AND kFlag_TSTransformPresent \<noteq> 0);
                   min_length2 = (if tf then min_length1 + 24 else min_length1);
                   parse_offset2 = (if tf then parse_offset1 + 24 else parse_offset1)
               in
               if tf \<and> amt < min_length2 then Inl Transform_truncated
               else if trtp_len < min_length2 + 3 then Inl Length_too_short_for_audio
               else if amt < min_length2 + 3 then Inl Header_fragmented
               else
                 Inr \<lparr> hdr_header_type = header_type, hdr_ts_valid = ts_valid,
                       hdr_trtp_len = trtp_len, hdr_ts = ts,
                       hdr_min_length = min_length2 + 3,
                       hdr_parse_offset = parse_offset2 + 3,
                       hdr_trtp_header_len = min_length2 + 3,
                       hdr_codec_type = buf ! parse_offset2,
                       hdr_flags = buf ! (parse_offset2 + 1),
                       hdr_volume = buf ! (parse_offset2 + 2) \<rparr>))))"

text \<open>
  \<open>alloc_ok\<close> says that \<^verbatim>\<open>new MediaBuffer\<close> gave a buffer with data and metadata; both
  failure branches of the source clean up and return.
\<close>

definition storePayloadStart ::
  "bool \<Rightarrow> 'tr Substream \<Rightarrow> byte list \<Rightarrow> trtp_header \<Rightarrow> abort + outcome \<times> 'tr Substream" where
  "storePayloadStart alloc_ok s buf h =
     (let amt = length buf;
          trtp_len = hdr_trtp_len h;
          (known, s1) = setupSubstreamType s (hdr_header_type h) (hdr_codec_type h)
      in
      if \<not> known then Inr (Dropped Codec_rejected, s1)
      else
        (let s2 = (case decoder_pump s1 of
                     None \<Rightarrow> s1
                   | Some p \<Rightarrow> s1\<lparr>decoder_pump := Some (setRenderVolume p (hdr_volume h))\<rparr>);
             aux_present = (hdr_flags h AND kFlag_AuxLengthPresent \<noteq> 0);
             min_length = (if aux_present then hdr_min_length h + 4 else hdr_min_length h);
             trtp_header_len =
               (if aux_present then hdr_trtp_header_len h + 4 else hdr_trtp_header_len h)
         in
         if waiting_for_rap s2 \<and> hdr_flags h AND kFlag_RandomAccessPoint = 0
           then Inr (Dropped Waiting_for_RAP, s2)
         else if aux_present \<and> trtp_len < min_length
           then Inr (Dropped Length_too_short_for_aux, s2)
         else if aux_present \<and> amt < min_length
           then Inr (Dropped Header_fragmented_at_aux, s2)
         else
           (let s3 = (if aux_present
                      then s2\<lparr>aux_data_expected_size := U32_AT buf (hdr_parse_offset h),
                              aux_data_in_progress := []\<rparr>
                      else s2\<lparr>aux_data_expected_size := 0\<rparr>)
            in
            if add32 (aux_data_expected_size s3) trtp_header_len > trtp_len
              then Inr (Dropped Aux_exceeds_length, s3)
            else
              (let s4 = s3\<lparr>expected_buffer_size :=
                             sub32 (sub32 trtp_len trtp_header_len) (aux_data_expected_size s3)\<rparr>
               in
               if expected_buffer_size s4 = 0 then Inr (Dropped Zero_length_access_unit, s4)
               else if \<not> amt \<ge> trtp_header_len then Inl CHECK_failed
               else if add32 (expected_buffer_size s4) (aux_data_expected_size s4)
                         < amt - trtp_header_len
                 then Inr (Dropped Extra_data, s4)
               else if \<not> alloc_ok
                 then Inr (Dropped Allocation_failed,
                           cleanupBufferInProgress (s4\<lparr>buffer_filled := 0\<rparr>))
               else
                 (let meta = new_MetaData\<lparr>kKeyMIMEType := Some (codec_mime_type s4),
                                          kKeyTime := (if hdr_ts_valid h then Some (hdr_ts h)
                                                       else None)\<rparr>;
                      buf1 = drop trtp_header_len buf;
                      todo1 = min (aux_data_expected_size s4) (length buf1);
                      aux = aux_data_in_progress s4 @ take todo1 buf1;
                      buf2 = drop todo1 buf1;
                      amt2 = length buf2;
                      todo2 = min (expected_buffer_size s4) amt2;
                      data0 = replicate (expected_buffer_size s4) 0;
                      data = (if todo2 > 0 then take todo2 buf2 @ drop todo2 data0 else data0)
                  in
                  Inr (Stored,
                       s4\<lparr>buffer_filled := (if todo2 > 0 then amt2 else 0),
                          buffer_in_progress := Some \<lparr>mb_data = data, mb_meta = meta\<rparr>,
                          aux_data_in_progress := aux\<rparr>))))))"

text \<open>
  The answers of the collaborators during one call into the substream:
  \<open>alloc_MediaBuffer\<close> as above; \<open>GetMPEGAudioFrameSize\<close> maps the 32-bit frame header
  to the sample rate and the channel count, \<open>None\<close> when it returns false;
  \<open>OMXCodec_Create\<close> and \<open>Thread_run\<close> are the two inputs of \<open>init\<close>.
\<close>

record collaborators =
  alloc_MediaBuffer :: bool
  GetMPEGAudioFrameSize :: "nat \<Rightarrow> (32 word \<times> 32 word) option"
  OMXCodec_Create :: bool
  Thread_run :: status_t

definition setupMP3SubstreamMeta ::
  "collaborators \<Rightarrow> 'tr Substream \<Rightarrow> abort + bool \<times> 'tr Substream" where
  "setupMP3SubstreamMeta env s =
     (case buffer_in_progress s of
        None \<Rightarrow> Inl Null_dereference
      | Some b \<Rightarrow>
          if length (mb_data b) < 4 then Inr (False, s)
          else
            (case GetMPEGAudioFrameSize env (U32_AT (mb_data b) 0) of
               None \<Rightarrow> Inr (False, s)
             | Some (sample_rate, channel_count) \<Rightarrow>
                 (case substream_meta s of
                    None \<Rightarrow>
                      Inr (True,
                           s\<lparr>substream_meta :=
                               Some (new_MetaData\<lparr>kKeyMIMEType := Some MEDIA_MIMETYPE_AUDIO_MPEG,
                                                  kKeyChannelCount := Some channel_count,
                                                  kKeySampleRate := Some sample_rate\<rparr>)\<rparr>)
                  | Some m \<Rightarrow>
                      (case kKeySampleRate m of
                         None \<Rightarrow> Inl Uninitialised_read
                       | Some prev_sample_rate \<Rightarrow>
                           (case kKeyChannelCount m of
                              None \<Rightarrow> Inl Uninitialised_read
                            | Some prev_channel_count \<Rightarrow>
                                if prev_channel_count \<noteq> channel_count \<or>
                                   prev_sample_rate \<noteq> sample_rate
                                then
                                  Inr (True,
                                       (cleanupDecoder s)
                                         \<lparr>substream_meta :=
                                            Some (m\<lparr>kKeyChannelCount := Some channel_count,
                                                    kKeySampleRate := Some sample_rate\<rparr>)\<rparr>)
                                else Inr (True, s))))))"

definition setupAACSubstreamMeta :: "'tr Substream \<Rightarrow> abort + bool \<times> 'tr Substream" where
  "setupAACSubstreamMeta s =
     (let aux_data = aux_data_in_progress s in
      if length aux_data < 8 then Inr (False, s)
      else
        (let sample_rate = (word_of_nat (U32_AT aux_data 0) :: 32 word);
             channel_cnt = (word_of_nat (U32_AT aux_data 4) :: 32 word);
             esds_data = (if length aux_data > 8 then Some (drop 8 aux_data) else None);
             fresh = new_MetaData\<lparr>kKeyMIMEType := Some MEDIA_MIMETYPE_AUDIO_AAC,
                                   kKeySampleRate := Some sample_rate,
                                   kKeyChannelCount := Some channel_cnt,
                                   kKeyESDS := esds_data\<rparr>
         in
         case substream_meta s of
           None \<Rightarrow> Inr (True, s\<lparr>substream_meta := Some fresh\<rparr>)
         | Some m \<Rightarrow>
             (case kKeySampleRate m of
                None \<Rightarrow> Inl CHECK_failed
              | Some prev_sample_rate \<Rightarrow>
                  (case kKeyChannelCount m of
                     None \<Rightarrow> Inl CHECK_failed
                   | Some prev_channel_count \<Rightarrow>
                       (let esds_change =
                              (case kKeyESDS m of
                                 None \<Rightarrow> esds_data \<noteq> None
                               | Some data \<Rightarrow>
                                   (case esds_data of
                                      None \<Rightarrow> True
                                    | Some e \<Rightarrow> length data \<noteq> length e \<or> data \<noteq> e))
                        in
                        if \<not> esds_change \<and> prev_sample_rate = sample_rate \<and>
                           prev_channel_count = channel_cnt
                        then Inr (True, s)
                        else Inr (True, (cleanupDecoder s)\<lparr>substream_meta := Some fresh\<rparr>))))))"

definition setupSubstreamMeta ::
  "collaborators \<Rightarrow> 'tr Substream \<Rightarrow> abort + bool \<times> 'tr Substream" where
  "setupSubstreamMeta env s =
     (if codec_type s = kCodecMPEG1Audio then
        setupMP3SubstreamMeta env (s\<lparr>codec_mime_type := MEDIA_MIMETYPE_AUDIO_MPEG\<rparr>)
      else if codec_type s = kCodecAACAudio then
        setupAACSubstreamMeta (s\<lparr>codec_mime_type := MEDIA_MIMETYPE_AUDIO_AAC\<rparr>)
      else Inr (False, s))"

definition processCompletedBuffer ::
  "collaborators \<Rightarrow> 'tr Substream \<Rightarrow> abort + 'tr Substream" where
  "processCompletedBuffer env s =
     (if buffer_in_progress s = None then Inl CHECK_failed
      else case decoder_pump s of
        None \<Rightarrow> Inr (cleanupBufferInProgress s)
      | Some p0 \<Rightarrow>
          (case setupSubstreamMeta env s of
             Inl e \<Rightarrow> Inl e
           | Inr (False, s1) \<Rightarrow> Inr (cleanupBufferInProgress s1)
           | Inr (True, s1) \<Rightarrow>
               (case decoder_pump s1 of
                  None \<Rightarrow> Inl Null_dereference
                | Some p1 \<Rightarrow>
                    (case init (OMXCodec_Create env) (Thread_run env) p1 (substream_meta s1) of
                       Inl e \<Rightarrow> Inl e
                     | Inr (res, p2) \<Rightarrow>
                         if res \<noteq> OK then
                           Inr (cleanupBufferInProgress
                                  ((cleanupDecoder (s1\<lparr>decoder_pump := Some p2\<rparr>))
                                     \<lparr>substream_meta := None\<rparr>))
                         else
                           (case queueForDecode p2 (buffer_in_progress s1) of
                              (res', p3) \<Rightarrow>
                                if res' \<noteq> OK then
                                  Inr (cleanupBufferInProgress
                                         ((cleanupBufferInProgress
                                             (cleanupDecoder
                                                (s1\<lparr>decoder_pump := Some p3, status := res'\<rparr>)))
                                            \<lparr>buffer_in_progress := None\<rparr>))
                                else
                                  Inr (cleanupBufferInProgress
                                         (s1\<lparr>decoder_pump := Some p3,
                                             buffer_in_progress := None\<rparr>)))))))"

definition processPayloadStart ::
  "collaborators \<Rightarrow> 'tr Substream \<Rightarrow> byte list \<Rightarrow> 32 word \<Rightarrow> abort + 'tr Substream" where
  "processPayloadStart env s buf ts_lower =
     (if shouldAbort s then Inr s
      else
        (let s0 = (if buffer_in_progress s \<noteq> None then cleanupBufferInProgress s else s) in
         case parseTRTPHeader s0 buf ts_lower of
           Inl why \<Rightarrow> Inr s0
         | Inr h \<Rightarrow>
             (case storePayloadStart (alloc_MediaBuffer env) s0 buf h of
                Inl e \<Rightarrow> Inl e
              | Inr (Stored, s1) \<Rightarrow>
                  if buffer_filled s1 \<ge> expected_buffer_size s1
                  then processCompletedBuffer env s1
                  else Inr s1
              | Inr (_, s1) \<Rightarrow> Inr s1)))"

text \<open>
  \<^verbatim>\<open>processPayloadCont\<close>, in two parts as well: \<open>storePayloadCont\<close> is the function from
  its first \<^verbatim>\<open>CHECK\<close> to the copy of the payload bytes, on a substream that has the
  buffer \<open>b\<close> in progress.
\<close>

definition storePayloadCont ::
  "'tr Substream \<Rightarrow> MediaBuffer \<Rightarrow> byte list \<Rightarrow> abort + outcome \<times> 'tr Substream" where
  "storePayloadCont s b buf =
     (if \<not> length (aux_data_in_progress s) \<le> aux_data_expected_size s then Inl CHECK_failed
      else
        (let aux_left = aux_data_expected_size s - length (aux_data_in_progress s);
             todo = (if aux_left \<noteq> 0 then min aux_left (length buf) else 0);
             s1 = (if aux_left \<noteq> 0
                   then s\<lparr>aux_data_in_progress := aux_data_in_progress s @ take todo buf\<rparr>
                   else s);
             buf1 = drop todo buf;
             amt = length buf1
         in
         if aux_left \<noteq> 0 \<and> amt = 0 then Inr (Stored_aux_only, s1)
         else if \<not> buffer_filled s1 < expected_buffer_size s1 then Inl CHECK_failed
         else
           (let buffer_left = expected_buffer_size s1 - buffer_filled s1 in
            if amt > buffer_left then Inr (Dropped Extra_data, cleanupBufferInProgress s1)
            else if amt > 0 then
              Inr (Stored,
                   s1\<lparr>buffer_in_progress :=
                        Some (b\<lparr>mb_data := take (buffer_filled s1) (mb_data b) @ buf1 @
                                            drop (buffer_filled s1 + amt) (mb_data b)\<rparr>),
                      buffer_filled := buffer_filled s1 + amt\<rparr>)
            else Inr (Stored, s1))))"

definition processPayloadCont ::
  "collaborators \<Rightarrow> 'tr Substream \<Rightarrow> byte list \<Rightarrow> abort + 'tr Substream" where
  "processPayloadCont env s buf =
     (if shouldAbort s then Inr s
      else case buffer_in_progress s of
        None \<Rightarrow> Inr s
      | Some b \<Rightarrow>
          (case storePayloadCont s b buf of
             Inl e \<Rightarrow> Inl e
           | Inr (Stored, s1) \<Rightarrow>
               if buffer_filled s1 \<ge> expected_buffer_size s1
               then processCompletedBuffer env s1
               else Inr s1
           | Inr (_, s1) \<Rightarrow> Inr s1))"

definition processTSTransform :: "'tr Substream \<Rightarrow> 'tr \<Rightarrow> 'tr Substream" where
  "processTSTransform s tr =
     (case decoder_pump s of
        None \<Rightarrow> s
      | Some p \<Rightarrow> s\<lparr>decoder_pump := Some (setRenderTSTransform p tr)\<rparr>)"

text \<open>\<^verbatim>\<open>Substream::isAboutToUnderflow\<close>, with the clock and the transform as for the pump.\<close>

definition kAboutToUnderflowThreshold :: "64 word" where
  "kAboutToUnderflowThreshold = 50 * 1000"

definition Substream_isAboutToUnderflow ::
  "64 word option \<Rightarrow> ('tr \<Rightarrow> 64 word \<Rightarrow> 64 word option) \<Rightarrow> 'tr Substream \<Rightarrow> bool" where
  "Substream_isAboutToUnderflow getCommonTime doForwardTransform s =
     (case decoder_pump s of
        None \<Rightarrow> False
      | Some p \<Rightarrow>
          isAboutToUnderflow getCommonTime doForwardTransform p kAboutToUnderflowThreshold)"

section \<open>Notions used to state the properties\<close>

subsection \<open>Histories of the work loop\<close>

text \<open>
  A pass of the loop has failed when the status of the read is neither \<open>OK\<close> nor
  \<open>INFO_FORMAT_CHANGED\<close>; it has produced output when it has not failed and a buffer
  came back. \<open>failed_run\<close> counts, in a history given newest pass first, the failed
  passes back to the latest pass with output; \<open>long_failed_run\<close> counts those among
  them that took at least the long-error threshold.
\<close>

definition step_failed :: "decode_step \<Rightarrow> bool" where
  "step_failed d = (read_res d \<noteq> OK \<and> read_res d \<noteq> INFO_FORMAT_CHANGED)"

definition step_long :: "decode_step \<Rightarrow> bool" where
  "step_long d = (durationUsecs d \<ge> 1000000)"

definition step_output :: "decode_step \<Rightarrow> bool" where
  "step_output d = (\<not> step_failed d \<and> read_bufOut d \<noteq> None)"

fun failed_run :: "decode_step list \<Rightarrow> nat" where
  "failed_run [] = 0"
| "failed_run (d # ds) =
     (if step_output d then 0
      else if step_failed d then Suc (failed_run ds)
      else failed_run ds)"

fun long_failed_run :: "decode_step list \<Rightarrow> nat" where
  "long_failed_run [] = 0"
| "long_failed_run (d # ds) =
     (if step_output d then 0
      else if step_failed d \<and> step_long d then Suc (long_failed_run ds)
      else long_failed_run ds)"

definition bump_long :: "decode_step \<Rightarrow> nat \<Rightarrow> nat" where
  "bump_long d n = (if step_long d then Suc n else n)"

definition fresh_work_state :: "'tr AAH_DecoderPump \<Rightarrow> 'tr work_state" where
  "fresh_work_state p = \<lparr> pump = p, consecutive_long_errors = 0, consecutive_errors = 0 \<rparr>"

definition no_exit :: "decode_step list \<Rightarrow> (bool \<times> decode_step) list" where
  "no_exit ds = map (Pair False) ds"

subsection \<open>Interleavings of enqueue and read\<close>

text \<open>
  A run of calls on one pump with no exit pending: \<open>Enqueue b\<close> is
  \<^verbatim>\<open>queueForDecode(b)\<close>, \<open>Read\<close> is one \<^verbatim>\<open>read\<close> by the codec. \<open>run_ops\<close> returns the
  buffers the reads delivered, in the order of delivery, and the pump at the end; a
  read that finds the queue empty waits and delivers nothing.
\<close>

datatype pump_op = Enqueue MediaBuffer | Read

fun run_ops ::
  "pump_op list \<Rightarrow> 'tr AAH_DecoderPump \<Rightarrow> MediaBuffer list \<times> 'tr AAH_DecoderPump" where
  "run_ops [] p = ([], p)"
| "run_ops (Enqueue b # ops) p = run_ops ops (snd (queueForDecode p (Some b)))"
| "run_ops (Read # ops) p =
     (case read True False p of
        (Returns res (Some b), p') \<Rightarrow>
          (case run_ops ops p' of (out, p'') \<Rightarrow> (b # out, p''))
      | (_, p') \<Rightarrow> run_ops ops p')"

fun enqueued :: "pump_op list \<Rightarrow> MediaBuffer list" where
  "enqueued [] = []"
| "enqueued (Enqueue b # ops) = b # enqueued ops"
| "enqueued (Read # ops) = enqueued ops"

subsection \<open>The wire header of a fragment start\<close>

text \<open>
  The layout of the TRTP audio header as the transmitter writes it: version, a byte with
  the header kind in its high nibble and the two timestamp flags, the total length, the
  upper timestamp half and the 24 bytes of the transform when their flags are set, then
  codec, audio flags and volume, then the aux length when its flag is set.
  \<open>audio_offset\<close> is the offset of the codec byte, \<open>header_overhead\<close> the length of the
  whole header. A header is valid for a substream when the payload holds all of it, the
  version is 1, the kind is audio, the codec is one the substream accepts (MP3 or AAC
  at first, the established one later), and the declared total length covers the
  header and the declared aux data.
\<close>

definition ts_valid_flag :: "byte list \<Rightarrow> bool" where
  "ts_valid_flag buf = (buf ! 1 AND kFlag_TSValid \<noteq> 0)"

definition ts_transform_flag :: "byte list \<Rightarrow> bool" where
  "ts_transform_flag buf = (buf ! 1 AND kFlag_TSTransformPresent \<noteq> 0)"

definition audio_offset :: "byte list \<Rightarrow> nat" where
  "audio_offset buf =
     6 + (if ts_valid_flag buf then 4 else 0) + (if ts_transform_flag buf then 24 else 0)"

definition aux_length_flag :: "byte list \<Rightarrow> bool" where
  "aux_length_flag buf = (buf ! (audio_offset buf + 1) AND kFlag_AuxLengthPresent \<noteq> 0)"

definition rap_flag :: "byte list \<Rightarrow> bool" where
  "rap_flag buf = (buf ! (audio_offset buf + 1) AND kFlag_RandomAccessPoint \<noteq> 0)"

definition header_overhead :: "byte list \<Rightarrow> nat" where
  "header_overhead buf = audio_offset buf + 3 + (if aux_length_flag buf then 4 else 0)"

definition declared_aux_length :: "byte list \<Rightarrow> nat" where
  "declared_aux_length buf =
     (if aux_length_flag buf then U32_AT buf (audio_offset buf + 3) else 0)"

definition declared_total_length :: "byte list \<Rightarrow> nat" where
  "declared_total_length buf = U32_AT buf 2"

definition codec_acceptable :: "'tr Substream \<Rightarrow> byte \<Rightarrow> bool" where
  "codec_acceptable s c =
     (if substream_details_known s
      then substream_type s = kHeaderTypeAudio \<and> codec_type s = c
      else c = kCodecMPEG1Audio \<or> c = kCodecAACAudio)"

definition valid_audio_header :: "'tr Substream \<Rightarrow> byte list \<Rightarrow> bool" where
  "valid_audio_header s buf =
     (header_overhead buf \<le> length buf \<and>
      buf ! 0 = 0x01 \<and>
      drop_bit 4 (buf ! 1) AND 0xF = kHeaderTypeAudio \<and>
      codec_acceptable s (buf ! audio_offset buf) \<and>
      header_overhead buf + declared_aux_length buf \<le> declared_total_length buf)"

text \<open>The locals of \<^verbatim>\<open>processPayloadStart\<close> after the three audio bytes of a valid header.\<close>

definition header_fields :: "byte list \<Rightarrow> 32 word \<Rightarrow> trtp_header" where
  "header_fields buf ts_lower =
     \<lparr> hdr_header_type = kHeaderTypeAudio, hdr_ts_valid = ts_valid_flag buf,
       hdr_trtp_len = declared_total_length buf,
       hdr_ts = (if ts_valid_flag buf
                 then push_bit 32 (word_of_nat (U32_AT buf 6) :: 64 word) OR scast ts_lower
                 else 0),
       hdr_min_length = audio_offset buf + 3,
       hdr_parse_offset = audio_offset buf + 3,
       hdr_trtp_header_len = audio_offset buf + 3,
       hdr_codec_type = buf ! audio_offset buf,
       hdr_flags = buf ! (audio_offset buf + 1),
       hdr_volume = buf ! (audio_offset buf + 2) \<rparr>"

subsection \<open>The life of a substream\<close>

text \<open>
  The calls its owner makes on a substream, each with the answers the collaborators
  give during it, and the work thread of its pump, which may leave the pump in any
  state between two calls. \<open>run_calls\<close> makes the calls in order; an abort ends the run.
\<close>

datatype 'tr substream_call =
    Payload_start collaborators "byte list" "32 word"
  | Payload_cont collaborators "byte list"
  | TS_transform 'tr
  | Shutdown
  | Work_thread "'tr AAH_DecoderPump"

fun run_call :: "'tr substream_call \<Rightarrow> 'tr Substream \<Rightarrow> abort + 'tr Substream" where
  "run_call (Payload_start env buf ts_lower) s = processPayloadStart env s buf ts_lower"
| "run_call (Payload_cont env buf) s = processPayloadCont env s buf"
| "run_call (TS_transform tr) s = Inr (processTSTransform s tr)"
| "run_call Shutdown s = Inr (Substream_shutdown s)"
| "run_call (Work_thread p) s =
     Inr (case decoder_pump s of None \<Rightarrow> s | Some _ \<Rightarrow> s\<lparr>decoder_pump := Some p\<rparr>)"

fun run_calls :: "'tr substream_call list \<Rightarrow> 'tr Substream \<Rightarrow> abort + 'tr Substream" where
  "run_calls [] s = Inr s"
| "run_calls (c # cs) s =
     (case run_call c s of Inl e \<Rightarrow> Inl e | Inr s' \<Rightarrow> run_calls cs s')"

text \<open>
  What holds of the buffer in progress between calls: the aux data are within their
  declared size, the payload is not yet complete, and the buffer has the declared
  payload size. Without a buffer there are no aux data.
\<close>

definition buffer_inv :: "'tr Substream \<Rightarrow> bool" where
  "buffer_inv s =
     (case buffer_in_progress s of
        None \<Rightarrow> aux_data_in_progress s = []
      | Some b \<Rightarrow>
          length (aux_data_in_progress s) \<le> aux_data_expected_size s \<and>
          buffer_filled s < expected_buffer_size s \<and>
          length (mb_data b) = expected_buffer_size s)"

subsection \<open>A substream in the middle of a unit\<close>

text \<open>
  \<open>accumulating s hdr ts_lower xs\<close>: the substream \<open>s\<close> after it has taken a fragment
  start with the header \<open>hdr\<close> and, from that fragment and its continuations together,
  the bytes \<open>xs\<close> that follow the header. The first bytes go to the aux data up to the
  declared aux length, the rest to the buffer of the declared payload size.
\<close>

definition accumulating ::
  "'tr Substream \<Rightarrow> byte list \<Rightarrow> 32 word \<Rightarrow> byte list \<Rightarrow> 'tr Substream" where
  "accumulating s hdr ts_lower xs =
     (let A = declared_aux_length hdr;
          E = declared_total_length hdr - header_overhead hdr - A;
          s1 = snd (setupSubstreamType s kHeaderTypeAudio (hdr ! audio_offset hdr));
          s2 = (case decoder_pump s1 of
                  None \<Rightarrow> s1
                | Some p \<Rightarrow>
                    s1\<lparr>decoder_pump :=
                         Some (setRenderVolume p (hdr ! (audio_offset hdr + 2)))\<rparr>)
      in s2\<lparr> aux_data_expected_size := A,
             aux_data_in_progress := take A xs,
             expected_buffer_size := E,
             buffer_filled := length xs - A,
             buffer_in_progress :=
               Some \<lparr> mb_data = drop A xs @ replicate (E - (length xs - A)) 0,
                      mb_meta = new_MetaData
                        \<lparr>kKeyMIMEType := Some (codec_mime_type s),
                         kKeyTime :=
                           (if ts_valid_flag hdr
                            then Some (push_bit 32 (word_of_nat (U32_AT hdr 6) :: 64 word) OR
                                       scast ts_lower)
                            else None)\<rparr> \<rparr> \<rparr>)"

text \<open>The buffer such a substream has in progress.\<close>

definition accumulating_buffer :: "'tr Substream \<Rightarrow> byte list \<Rightarrow> 32 word \<Rightarrow> byte list \<Rightarrow> MediaBuffer" where
  "accumulating_buffer s hdr ts_lower xs =
     \<lparr> mb_data = drop (declared_aux_length hdr) xs @
                 replicate (declared_total_length hdr - header_overhead hdr -
                            declared_aux_length hdr - (length xs - declared_aux_length hdr)) 0,
       mb_meta = new_MetaData
                        \<lparr>kKeyMIMEType := Some (codec_mime_type s),
                         kKeyTime :=
                           (if ts_valid_flag hdr
                            then Some (push_bit 32 (word_of_nat (U32_AT hdr 6) :: 64 word) OR
                                       scast ts_lower)
                            else None)\<rparr> \<rparr>"

text \<open>Continuations delivered one after the other; an abort ends the delivery.\<close>

fun processPayloadConts ::
  "collaborators \<Rightarrow> 'tr Substream \<Rightarrow> byte list list \<Rightarrow> abort + 'tr Substream" where
  "processPayloadConts env s [] = Inr s"
| "processPayloadConts env s (f # fs) =
     (case processPayloadCont env s f of
        Inl e \<Rightarrow> Inl e
      | Inr s' \<Rightarrow> processPayloadConts env s' fs)"

subsection \<open>Metadata derived from a unit\<close>

text \<open>
  The metadata the AAC setup derives from the aux data of a unit: sample rate and
  channel count from the first eight bytes, the codec configuration from the rest, if
  there is any.
\<close>

definition derived_aac_meta :: "byte list \<Rightarrow> MetaData" where
  "derived_aac_meta aux =
     new_MetaData\<lparr>kKeyMIMEType := Some MEDIA_MIMETYPE_AUDIO_AAC,
                   kKeySampleRate := Some (word_of_nat (U32_AT aux 0)),
                   kKeyChannelCount := Some (word_of_nat (U32_AT aux 4)),
                   kKeyESDS := (if length aux > 8 then Some (drop 8 aux) else None)\<rparr>"

text \<open>
  A fragment start that holds a whole unit: the bytes of the unit and of its aux data.
  \<open>metadata_derivable\<close> says that the unit gives the metadata of its codec: for MP3 the
  unit has the four bytes of a frame header and the frame-header parser accepts them,
  for AAC the aux data declared have the eight bytes of sample rate and channel count.
  \<open>format_differs\<close> says that what is derived differs from the metadata \<open>m\<close>.
\<close>

definition unit_bytes :: "byte list \<Rightarrow> byte list" where
  "unit_bytes buf = drop (header_overhead buf + declared_aux_length buf) buf"

definition aux_bytes :: "byte list \<Rightarrow> byte list" where
  "aux_bytes buf = take (declared_aux_length buf) (drop (header_overhead buf) buf)"

definition metadata_derivable :: "collaborators \<Rightarrow> byte list \<Rightarrow> bool" where
  "metadata_derivable env buf =
     (if buf ! audio_offset buf = kCodecMPEG1Audio
      then 4 \<le> length (unit_bytes buf) \<and>
           GetMPEGAudioFrameSize env (U32_AT (unit_bytes buf) 0) \<noteq> None
      else buf ! audio_offset buf = kCodecAACAudio \<and> 8 \<le> declared_aux_length buf)"

definition format_differs :: "collaborators \<Rightarrow> MetaData \<Rightarrow> byte list \<Rightarrow> bool" where
  "format_differs env m buf =
     (if buf ! audio_offset buf = kCodecMPEG1Audio
      then (case GetMPEGAudioFrameSize env (U32_AT (unit_bytes buf) 0) of
              None \<Rightarrow> False
            | Some (sr, ch) \<Rightarrow> kKeySampleRate m \<noteq> Some sr \<or> kKeyChannelCount m \<noteq> Some ch)
      else kKeySampleRate (derived_aac_meta (aux_bytes buf)) \<noteq> kKeySampleRate m \<or>
           kKeyChannelCount (derived_aac_meta (aux_bytes buf)) \<noteq> kKeyChannelCount m \<or>
           kKeyESDS (derived_aac_meta (aux_bytes buf)) \<noteq> kKeyESDS m)"

text \<open>
  The queue of the pump \<open>p\<close> once the metadata of such a unit are set up on a substream
  with the metadata \<open>prior\<close>: a change of format shuts the pump down, which empties the
  queue.
\<close>

definition queue_after_setup ::
  "collaborators \<Rightarrow> MetaData option \<Rightarrow> byte list \<Rightarrow> 'tr AAH_DecoderPump \<Rightarrow> MediaBuffer list" where
  "queue_after_setup env prior buf p =
     (case prior of
        None \<Rightarrow> in_queue p
      | Some m \<Rightarrow> if format_differs env m buf then [] else in_queue p)"

text \<open>Metadata that carry sample rate and channel count, if there are any.\<close>

definition meta_complete :: "MetaData option \<Rightarrow> bool" where
  "meta_complete prior =
     (case prior of
        None \<Rightarrow> True
      | Some m \<Rightarrow> kKeySampleRate m \<noteq> None \<and> kKeyChannelCount m \<noteq> None)"

subsection \<open>Example values\<close>

text \<open>A pump as the constructor leaves it, with a number for the transform.\<close>

definition example_pump :: "nat AAH_DecoderPump" where
  "example_pump = new_AAH_DecoderPump 0 0 0"


text \<open>
  A pass whose read fails after two seconds, a pass that decodes a buffer with a
  timestamp, and a track that answers every call with success.
\<close>

definition example_track :: track_answers where
  "example_track = \<lparr> track_new = True, track_set = OK, track_setMediaTimeTransform = OK,
                      track_allocateTimedBuffer = OK, track_queueTimedBuffer = OK \<rparr>"

definition example_failure :: decode_step where
  "example_failure = \<lparr> read_res = ERROR (- 1), read_bufOut = None,
                        durationUsecs = 2000000, track = example_track \<rparr>"

definition example_decoded :: MediaBuffer where
  "example_decoded = \<lparr> mb_data = [1, 2], mb_meta = new_MetaData\<lparr>kKeyTime := Some 7\<rparr> \<rparr>"

definition example_output :: decode_step where
  "example_output = \<lparr> read_res = OK, read_bufOut = Some example_decoded,
                       durationUsecs = 10, track = example_track \<rparr>"

definition example_running :: "nat AAH_DecoderPump" where
  "example_running = example_pump\<lparr>last_ts_transform_valid := True, decoder := True\<rparr>"

text \<open>
  A substream as its constructor leaves it, and the collaborators at their best: the
  buffer is allocated, every MP3 frame header parses to 44100 Hz stereo, the codec is
  created and the thread runs.
\<close>

definition example_substream :: "nat Substream" where
  "example_substream = new_Substream 0 example_pump 0 0"

definition example_env :: collaborators where
  "example_env = \<lparr> alloc_MediaBuffer = True,
                    GetMPEGAudioFrameSize = (\<lambda>h. Some (44100, 2)),
                    OMXCodec_Create = True, Thread_run = OK \<rparr>"


text \<open>
  An AAC header of 13 bytes with the random-access and aux-length flags: total length
  24, aux length 8. The aux data says 48000 Hz, two channels; the payload has three
  bytes.
\<close>

definition example_aac_header :: "byte list" where
  "example_aac_header = [0x01, 0x10, 0, 0, 0, 24, 0x04, 0x18, 0xFF, 0, 0, 0, 8]"

definition example_aac_aux :: "byte list" where
  "example_aac_aux = [0, 0, 0xBB, 0x80, 0, 0, 0, 2]"

definition example_aac_payload :: "byte list" where
  "example_aac_payload = [0x21, 0x10, 0x05]"



text \<open>
  A fragment start whose lengths disagree: total length 13, which the header with its
  aux length field fills, and a declared aux length of 5; volume 128. And the fresh
  substream after it.
\<close>

definition example_inconsistent_start :: "byte list" where
  "example_inconsistent_start = [0x01, 0x10, 0, 0, 0, 13, 0x03, 0x18, 0x80, 0, 0, 0, 5]"

definition example_after_inconsistent :: "nat Substream" where
  "example_after_inconsistent =
     example_substream\<lparr>substream_details_known := True, substream_type := kHeaderTypeAudio,
                        codec_type := kCodecMPEG1Audio, aux_data_expected_size := 5,
                        decoder_pump := Some (example_pump\<lparr>last_volume := 0x80\<rparr>)\<rparr>"

text \<open>A fragment start with version 2.\<close>

definition example_bad_version :: "byte list" where
  "example_bad_version = [0x02, 0x10, 0, 0, 0, 13, 0x03, 0x08, 0x80, 1, 2, 3, 4]"

text \<open>
  The fresh substream after the MP3 fragment start with the random-access flag: the
  unit is in the queue of the pump, which has its format and its decoder.
\<close>

definition example_mp3_meta :: MetaData where
  "example_mp3_meta = new_MetaData\<lparr>kKeyMIMEType := Some MEDIA_MIMETYPE_AUDIO_MPEG,
                                    kKeyChannelCount := Some 2, kKeySampleRate := Some 44100\<rparr>"

definition example_mp3_unit :: MediaBuffer where
  "example_mp3_unit = \<lparr> mb_data = [0xFF, 0xFB, 0x90, 0x00],
                        mb_meta = new_MetaData\<lparr>kKeyMIMEType := Some []\<rparr> \<rparr>"

definition example_after_rap :: "nat Substream" where
  "example_after_rap =
     example_substream\<lparr>substream_details_known := True, substream_type := kHeaderTypeAudio,
                        codec_type := kCodecMPEG1Audio,
                        codec_mime_type := MEDIA_MIMETYPE_AUDIO_MPEG,
                        substream_meta := Some example_mp3_meta,
                        decoder_pump :=
                          Some (example_pump\<lparr>in_queue := [example_mp3_unit], decoder := True,
                                              format := Some example_mp3_meta,
                                              format_channels := 2,
                                              format_sample_rate := 44100\<rparr>)\<rparr>"

text \<open>
  An MP3 substream with a unit ready, a frame-header parser that finds 48000 Hz, and an
  AAC substream whose aux data repeat its metadata.
\<close>

definition example_mp3_ready :: "nat Substream" where
  "example_mp3_ready = example_after_rap\<lparr>buffer_in_progress := Some example_mp3_unit\<rparr>"

definition example_env_48k :: collaborators where
  "example_env_48k = example_env\<lparr>GetMPEGAudioFrameSize := (\<lambda>h. Some (48000, 2))\<rparr>"

definition example_aac_ready :: "nat Substream" where
  "example_aac_ready =
     example_substream\<lparr>substream_details_known := True, substream_type := kHeaderTypeAudio,
                        codec_type := kCodecAACAudio,
                        substream_meta := Some (derived_aac_meta example_aac_aux),
                        aux_data_in_progress := example_aac_aux,
                        aux_data_expected_size := 8\<rparr>"

text \<open>A fragment start that names a codec the receiver does not support (1, PCM).\<close>

definition example_pcm_start :: "byte list" where
  "example_pcm_start = [0x01, 0x10, 0, 0, 0, 13, 0x01, 0x08, 0xFF, 1, 2, 3, 4]"


section \<open>Properties of the decoder pump\<close>

subsection \<open>The error budget of the work loop\<close>

lemma workLoop_append:
  "workLoop (xs @ ys) w =
     (case workLoop xs w of
        Inl e \<Rightarrow> Inl e
      | Inr (In_loop w') \<Rightarrow> workLoop ys w'
      | Inr (Exited p) \<Rightarrow> Inr (Exited p))"
proof (induction xs arbitrary: w)
  case Nil
  show ?case by simp
next
  case (Cons x xs)
  obtain e d where x: "x = (e, d)" by (cases x)
  show ?case unfolding x
    by (simp add: Cons.IH split: sum.splits prod.splits loop_ctl.splits)
qed

lemma workIter_failed:
  assumes "step_failed d" "read_bufOut d = None"
      and "consecutive_errors w < 60" "consecutive_long_errors w < 3"
  shows "workIter d w =
     Inr (if Suc (consecutive_errors w) \<ge> 60 \<or> bump_long d (consecutive_long_errors w) \<ge> 3
          then (Break, \<lparr> pump = (pump w)\<lparr>thread_status := read_res d\<rparr>,
                   consecutive_long_errors = bump_long d (consecutive_long_errors w),
                   consecutive_errors = Suc (consecutive_errors w) \<rparr>)
          else (Continue, \<lparr> pump = pump w,
                   consecutive_long_errors = bump_long d (consecutive_long_errors w),
                   consecutive_errors = Suc (consecutive_errors w) \<rparr>))"
  using assms
  by (simp add: workIter_def step_failed_def step_long_def kLongDecodeErrorThreshold_def
      kMaxErrorsBeforeFatal_def kMaxLongErrorsBeforeFatal_def Let_def bump_long_def)

lemma queueToRenderer_status:
  "queueToRenderer t p b = Inr p' \<Longrightarrow> thread_status p' = thread_status p"
  by (auto simp: queueToRenderer_def split: option.splits if_splits)

lemma workIter_not_failed:
  assumes "\<not> step_failed d" "workIter d w = Inr (c, w')"
  shows "c = Continue"
    and "read_bufOut d = None \<Longrightarrow> consecutive_errors w' = consecutive_errors w"
    and "read_bufOut d = None \<Longrightarrow> consecutive_long_errors w' = consecutive_long_errors w"
    and "read_bufOut d \<noteq> None \<Longrightarrow> consecutive_errors w' = 0"
    and "read_bufOut d \<noteq> None \<Longrightarrow> consecutive_long_errors w' = 0"
    and "thread_status (pump w') = thread_status (pump w)"
  using assms
  by (auto simp: workIter_def step_failed_def Let_def stopAndCleanupRenderer_def
      split: if_splits option.splits sum.splits dest: queueToRenderer_status)

lemma workLoop_counters:
  assumes "workLoop (no_exit ds) w = Inr (In_loop w')"
      and "\<forall>d \<in> set ds. step_failed d \<longrightarrow> read_bufOut d = None"
      and "consecutive_errors w = failed_run (rev pre)"
      and "consecutive_long_errors w = long_failed_run (rev pre)"
      and "consecutive_errors w < 60" "consecutive_long_errors w < 3"
  shows "consecutive_errors w' = failed_run (rev (pre @ ds)) \<and>
         consecutive_long_errors w' = long_failed_run (rev (pre @ ds)) \<and>
         consecutive_errors w' < 60 \<and> consecutive_long_errors w' < 3 \<and>
         thread_status (pump w') = thread_status (pump w)"
  using assms
proof (induction ds arbitrary: w pre)
  case Nil
  then show ?case by (simp add: no_exit_def)
next
  case (Cons d ds)
  show ?case
  proof (cases "step_failed d")
    case True
    then have nb: "read_bufOut d = None" using Cons.prems(2) by simp
    note it = workIter_failed[OF True nb Cons.prems(5,6)]
    let ?w1 = "\<lparr> pump = pump w,
                  consecutive_long_errors = bump_long d (consecutive_long_errors w),
                  consecutive_errors = Suc (consecutive_errors w) \<rparr>"
    from Cons.prems(1) it
    have nobrk: "\<not> (Suc (consecutive_errors w) \<ge> 60 \<or>
                     bump_long d (consecutive_long_errors w) \<ge> 3)"
      by (auto simp: no_exit_def split: if_splits)
    with Cons.prems(1) it have loop: "workLoop (no_exit ds) ?w1 = Inr (In_loop w')"
      by (simp add: no_exit_def split: if_splits)
    have so: "\<not> step_output d" using True by (simp add: step_output_def)
    have "consecutive_errors w' = failed_run (rev ((pre @ [d]) @ ds)) \<and>
         consecutive_long_errors w' = long_failed_run (rev ((pre @ [d]) @ ds)) \<and>
         consecutive_errors w' < 60 \<and> consecutive_long_errors w' < 3 \<and>
         thread_status (pump w') = thread_status (pump ?w1)"
      apply (rule Cons.IH[OF loop])
      using Cons.prems(2,3,4) nobrk True so by (auto simp: bump_long_def)
    then show ?thesis by simp
  next
    case False
    from Cons.prems(1) obtain c w1 where it: "workIter d w = Inr (c, w1)"
      by (auto simp: no_exit_def split: sum.splits)
    note nf = workIter_not_failed[OF False it]
    with Cons.prems(1) it have loop: "workLoop (no_exit ds) w1 = Inr (In_loop w')"
      by (simp add: no_exit_def)
    have "consecutive_errors w' = failed_run (rev ((pre @ [d]) @ ds)) \<and>
         consecutive_long_errors w' = long_failed_run (rev ((pre @ [d]) @ ds)) \<and>
         consecutive_errors w' < 60 \<and> consecutive_long_errors w' < 3 \<and>
         thread_status (pump w') = thread_status (pump w1)"
    proof (rule Cons.IH[OF loop])
      show "\<forall>d \<in> set ds. step_failed d \<longrightarrow> read_bufOut d = None"
        using Cons.prems(2) by simp
      show "consecutive_errors w1 = failed_run (rev (pre @ [d]))"
        using nf(2,4) Cons.prems(3) False by (cases "read_bufOut d") (auto simp: step_output_def)
      show "consecutive_long_errors w1 = long_failed_run (rev (pre @ [d]))"
        using nf(3,5) Cons.prems(4) False by (cases "read_bufOut d") (auto simp: step_output_def)
      show "consecutive_errors w1 < 60"
        using nf(2,4) Cons.prems(5) by (cases "read_bufOut d") auto
      show "consecutive_long_errors w1 < 3"
        using nf(3,5) Cons.prems(6) by (cases "read_bufOut d") auto
    qed
    then show ?thesis using nf(6) by simp
  qed
qed

text \<open>
  A run of passes that all fail is counted in full: the count the loop keeps is never
  below the number of failed passes in a row.
\<close>

lemma failed_run_takeWhile: "length (takeWhile step_failed ds) \<le> failed_run ds"
  by (induction ds) (auto simp: step_output_def)

lemma long_failed_run_takeWhile:
  "length (takeWhile (\<lambda>d. step_failed d \<and> step_long d) ds) \<le> long_failed_run ds"
  by (induction ds) (auto simp: step_output_def)

text \<open>
  C1. The work loop has run the passes \<open>ds\<close> from fresh counters and is still inside the
  loop, in state \<open>w\<close>; failed reads have handed back no buffer, as the loop's own
  \<^verbatim>\<open>CHECK\<close> demands. Then the two counters are the counts of failed and of long failed
  passes since the latest pass with output, below 60 and below 3. If the next pass \<open>d\<close>
  fails and brings the count of failed passes to 60, or the count of failed passes that
  took at least 1000000 microseconds to 3, the loop is left at that pass whatever would
  follow, the status of the failed read is the pump's \<open>thread_status\<close>, it is not \<open>OK\<close>,
  and from then on \<open>queueForDecode\<close> returns an error for every buffer and leaves the pump
  as it is. If the next pass \<open>d'\<close> produces output and the renderer step returns, the
  loop goes on with both counters at zero.
\<close>

theorem workThread_error_budget:
  assumes running: "workLoop (no_exit ds) (fresh_work_state p) = Inr (In_loop w)"
      and contract: "\<forall>x \<in> set ds. step_failed x \<longrightarrow> read_bufOut x = None"
  shows "(step_failed d \<and> read_bufOut d = None \<and>
            (failed_run (d # rev ds) \<ge> kMaxErrorsBeforeFatal \<or>
             long_failed_run (d # rev ds) \<ge> kMaxLongErrorsBeforeFatal) \<longrightarrow>
          (\<exists>p'. workLoop (no_exit (ds @ [d]) @ later) (fresh_work_state p) = Inr (Exited p') \<and>
                thread_status p' = read_res d \<and> thread_status p' \<noteq> OK \<and>
                (\<forall>buf. fst (queueForDecode p' buf) \<noteq> OK \<and>
                       snd (queueForDecode p' buf) = p'))) \<and>
         (step_output d' \<and> workIter d' w = Inr (c, w') \<longrightarrow>
          c = Continue \<and> consecutive_errors w' = 0 \<and> consecutive_long_errors w' = 0) \<and>
         consecutive_errors w = failed_run (rev ds) \<and>
         consecutive_long_errors w = long_failed_run (rev ds) \<and>
         failed_run (rev ds) < kMaxErrorsBeforeFatal \<and>
         long_failed_run (rev ds) < kMaxLongErrorsBeforeFatal"
proof -
  have cnt: "consecutive_errors w = failed_run (rev ([] @ ds)) \<and>
         consecutive_long_errors w = long_failed_run (rev ([] @ ds)) \<and>
         consecutive_errors w < 60 \<and> consecutive_long_errors w < 3 \<and>
         thread_status (pump w) = thread_status (pump (fresh_work_state p))"
    by (rule workLoop_counters[OF running contract]) (simp_all add: fresh_work_state_def)
  have lt: "consecutive_errors w < 60" "consecutive_long_errors w < 3" using cnt by auto
  have part1: "\<exists>p'. workLoop (no_exit (ds @ [d]) @ later) (fresh_work_state p) = Inr (Exited p') \<and>
               thread_status p' = read_res d \<and> thread_status p' \<noteq> OK \<and>
               (\<forall>buf. fst (queueForDecode p' buf) \<noteq> OK \<and> snd (queueForDecode p' buf) = p')"
    if f: "step_failed d" and nb: "read_bufOut d = None"
      and reached: "failed_run (d # rev ds) \<ge> kMaxErrorsBeforeFatal \<or>
                    long_failed_run (d # rev ds) \<ge> kMaxLongErrorsBeforeFatal"
  proof -
    have so: "\<not> step_output d" using f by (simp add: step_output_def)
    have brk: "Suc (consecutive_errors w) \<ge> 60 \<or> bump_long d (consecutive_long_errors w) \<ge> 3"
      using reached cnt f so
      by (auto simp: kMaxErrorsBeforeFatal_def kMaxLongErrorsBeforeFatal_def bump_long_def
          split: if_splits)
    have it: "workIter d w = Inr (Break, \<lparr> pump = (pump w)\<lparr>thread_status := read_res d\<rparr>,
                 consecutive_long_errors = bump_long d (consecutive_long_errors w),
                 consecutive_errors = Suc (consecutive_errors w) \<rparr>)"
      unfolding workIter_failed[OF f nb lt] using brk by (simp only: if_True)
    have split: "no_exit (ds @ [d]) @ later = no_exit ds @ ((False, d) # later)"
      by (simp add: no_exit_def)
    have ex: "workLoop (no_exit (ds @ [d]) @ later) (fresh_work_state p) =
          Inr (Exited (stopAndCleanupRenderer ((pump w)\<lparr>thread_status := read_res d\<rparr>)))"
      unfolding split by (simp add: workLoop_append running it)
    have nok: "read_res d \<noteq> OK" using f by (simp add: step_failed_def)
    show ?thesis
      using ex nok
      by (auto simp: stopAndCleanupRenderer_def queueForDecode_def split: option.splits)
  qed
  have part2: "c = Continue \<and> consecutive_errors w' = 0 \<and> consecutive_long_errors w' = 0"
    if produced: "step_output d'" and rendered: "workIter d' w = Inr (c, w')"
  proof -
    have nf: "\<not> step_failed d'" and ob: "read_bufOut d' \<noteq> None"
      using produced by (simp_all add: step_output_def)
    show ?thesis using workIter_not_failed(1,4,5)[OF nf rendered] ob by simp
  qed
  have part3: "consecutive_errors w = failed_run (rev ds) \<and>
         consecutive_long_errors w = long_failed_run (rev ds) \<and>
         failed_run (rev ds) < kMaxErrorsBeforeFatal \<and>
         long_failed_run (rev ds) < kMaxLongErrorsBeforeFatal"
    using cnt by (simp add: kMaxErrorsBeforeFatal_def kMaxLongErrorsBeforeFatal_def)
  show ?thesis using part1 part2 part3 by blast
qed

theorem workThread_error_budget_witness:
  "(step_failed example_failure \<and> read_bufOut example_failure = None \<and>
    long_failed_run (example_failure # rev [example_failure, example_failure])
      \<ge> kMaxLongErrorsBeforeFatal) \<and>
   (\<exists>p'. workLoop (no_exit ([example_failure, example_failure] @ [example_failure]) @
                    [(False, example_output)]) (fresh_work_state example_running) =
            Inr (Exited p') \<and>
         thread_status p' = ERROR (- 1) \<and>
         (\<forall>buf. fst (queueForDecode p' buf) \<noteq> OK \<and> snd (queueForDecode p' buf) = p')) \<and>
   step_output example_output \<and>
   workIter example_output \<lparr> pump = example_running, consecutive_long_errors = 2,
                              consecutive_errors = 2 \<rparr> =
     Inr (Continue, \<lparr> pump = example_running\<lparr>renderer := True, last_queued_pts_valid := True,
                                              last_queued_pts := 7\<rparr>,
                      consecutive_long_errors = 0, consecutive_errors = 0 \<rparr>)"
proof -
  have running: "workLoop (no_exit [example_failure, example_failure])
                   (fresh_work_state example_running) =
        Inr (In_loop \<lparr> pump = example_running, consecutive_long_errors = 2,
                       consecutive_errors = 2 \<rparr>)"
    by (simp add: no_exit_def fresh_work_state_def workIter_def example_failure_def Let_def
        kLongDecodeErrorThreshold_def kMaxErrorsBeforeFatal_def kMaxLongErrorsBeforeFatal_def)
  have contract:
    "\<forall>x \<in> set [example_failure, example_failure]. step_failed x \<longrightarrow> read_bufOut x = None"
    by (simp add: example_failure_def)
  have failed: "step_failed example_failure \<and> read_bufOut example_failure = None"
    by (simp add: example_failure_def step_failed_def)
  have reached: "long_failed_run (example_failure # rev [example_failure, example_failure])
          \<ge> kMaxLongErrorsBeforeFatal"
    by (simp add: example_failure_def step_failed_def step_output_def step_long_def
        kMaxLongErrorsBeforeFatal_def)
  have produced: "step_output example_output"
    by (simp add: example_output_def step_output_def step_failed_def)
  have rendered: "workIter example_output \<lparr> pump = example_running, consecutive_long_errors = 2,
                       consecutive_errors = 2 \<rparr> =
        Inr (Continue, \<lparr> pump = example_running\<lparr>renderer := True, last_queued_pts_valid := True,
                             last_queued_pts := 7\<rparr>,
                         consecutive_long_errors = 0, consecutive_errors = 0 \<rparr>)"
    by (simp add: workIter_def example_output_def example_decoded_def queueToRenderer_def
        example_track_def example_running_def example_pump_def new_AAH_DecoderPump_def
        new_MetaData_def)
  have res: "read_res example_failure = ERROR (- 1)" by (simp add: example_failure_def)
  show ?thesis
    using workThread_error_budget[OF running contract, of example_failure
        "[(False, example_output)]" example_output Continue
        "\<lparr> pump = example_running\<lparr>renderer := True, last_queued_pts_valid := True,
                                    last_queued_pts := 7\<rparr>,
            consecutive_long_errors = 0, consecutive_errors = 0 \<rparr>"]
      failed reached produced rendered res
    by auto
qed

subsection \<open>init\<close>

text \<open>
  C5. \<open>init\<close> on a pump that has no decoder, with a format that carries both the channel
  count and the sample rate, when \<^verbatim>\<open>OMXCodec::Create\<close> gives no codec: the call returns
  \<open>OK\<close>, and the pump is left without decoder and without format.
\<close>

theorem init_create_failure_returns_OK:
  "init False run_res (new_AAH_DecoderPump tr0 ch0 sr0)
        (Some (new_MetaData\<lparr>kKeyChannelCount := Some 2, kKeySampleRate := Some 44100\<rparr>)) =
   Inr (OK, new_AAH_DecoderPump tr0 2 44100)"
  by (simp add: init_def new_AAH_DecoderPump_def new_MetaData_def)

text \<open>
  The other two parts of the description of \<open>init\<close> hold: with a decoder in place the
  call changes nothing and returns \<open>OK\<close>; without one, a missing format, channel count
  or sample rate gives \<open>BAD_VALUE\<close>.
\<close>

lemma init_already_inited: "decoder p \<Longrightarrow> init c r p params = Inr (OK, p)"
  by (simp add: init_def)

lemma init_bad_value:
  assumes "\<not> decoder p"
      and "params = None \<or>
           (\<exists>m. params = Some m \<and> (kKeyChannelCount m = None \<or> kKeySampleRate m = None))"
  shows "\<exists>p'. init c r p params = Inr (BAD_VALUE, p')"
  using assms by (auto simp: init_def split: option.splits)

subsection \<open>read\<close>

lemma run_ops_fifo:
  "thread_status p = OK \<Longrightarrow>
   fst (run_ops ops p) @ in_queue (snd (run_ops ops p)) = in_queue p @ enqueued ops"
proof (induction ops p rule: run_ops.induct)
  case (1 p)
  then show ?case by simp
next
  case (2 b ops p)
  then show ?case by (simp add: queueForDecode_def)
next
  case (3 ops p)
  then show ?case
    by (cases "in_queue p") (auto simp: read_def split: prod.splits)
qed

text \<open>
  C6, as the code has it. With an exit pending \<open>read\<close> returns \<open>INVALID_OPERATION\<close> and no
  buffer and leaves the queue as it is, empty or not. With no exit pending it removes
  and returns the head of a queue that has one, and waits on an empty queue. Over any
  interleaving of enqueues and reads on a pump that is not in error, the buffers
  delivered followed by the buffers still queued are the buffers queued at the start
  followed by the buffers enqueued, in that order.
\<close>

theorem read_fifo:
  assumes "thread_status p = OK"
  shows "read True True p = (Returns INVALID_OPERATION None, p) \<and>
         read True False (p\<lparr>in_queue := b # rest\<rparr>) =
           (Returns OK (Some b), p\<lparr>in_queue := rest\<rparr>) \<and>
         read True False (p\<lparr>in_queue := []\<rparr>) = (Waits, p\<lparr>in_queue := []\<rparr>) \<and>
         fst (run_ops ops p) @ in_queue (snd (run_ops ops p)) = in_queue p @ enqueued ops"
  using run_ops_fifo[OF assms, of ops] by (simp add: read_def)

theorem read_fifo_witness:
  "thread_status example_pump = OK \<and>
   read True False (example_pump\<lparr>in_queue := [new_MediaBuffer 1, new_MediaBuffer 2]\<rparr>) =
     (Returns OK (Some (new_MediaBuffer 1)), example_pump\<lparr>in_queue := [new_MediaBuffer 2]\<rparr>) \<and>
   fst (run_ops [Enqueue (new_MediaBuffer 1), Enqueue (new_MediaBuffer 2), Read] example_pump) @
     in_queue (snd (run_ops [Enqueue (new_MediaBuffer 1), Enqueue (new_MediaBuffer 2), Read]
                      example_pump)) =
   [new_MediaBuffer 1, new_MediaBuffer 2]"
proof -
  have ok: "thread_status example_pump = OK"
    by (simp add: example_pump_def new_AAH_DecoderPump_def)
  show ?thesis
    using ok read_fifo[OF ok, of "new_MediaBuffer 1" "[new_MediaBuffer 2]"
        "[Enqueue (new_MediaBuffer 1), Enqueue (new_MediaBuffer 2), Read]"]
    by (simp add: example_pump_def new_AAH_DecoderPump_def)
qed

text \<open>
  The claim as worded asks for the head of the queue whenever the queue is not empty.
  With an exit pending and one buffer queued the call returns \<open>INVALID_OPERATION\<close>, hands
  out nothing and leaves the buffer in the queue.
\<close>

theorem read_exit_pending_counterexample:
  "read True True (example_pump\<lparr>in_queue := [new_MediaBuffer 1]\<rparr>) =
     (Returns INVALID_OPERATION None, example_pump\<lparr>in_queue := [new_MediaBuffer 1]\<rparr>) \<and>
   fst (read True True (example_pump\<lparr>in_queue := [new_MediaBuffer 1]\<rparr>)) \<noteq>
     Returns OK (Some (new_MediaBuffer 1)) \<and>
   in_queue (snd (read True True (example_pump\<lparr>in_queue := [new_MediaBuffer 1]\<rparr>))) \<noteq> []"
  by (simp add: read_def)

subsection \<open>isAboutToUnderflow\<close>

text \<open>
  C7. \<open>isAboutToUnderflow\<close> is true exactly when a unit has been queued to the renderer,
  a transform is stored, the common clock is readable, the transform maps the last
  queued timestamp, and the 64-bit sum \<open>now + threshold - mapped\<close> is positive as a
  signed number. In particular it is false when nothing has been queued, when no
  transform is stored and when the clock cannot be read.
\<close>

theorem isAboutToUnderflow_result:
  "isAboutToUnderflow clock fwd p threshold =
     (last_queued_pts_valid p \<and> last_ts_transform_valid p \<and>
      (\<exists>tt_now mapped. clock = Some tt_now \<and>
          fwd (last_ts_transform p) (last_queued_pts p) = Some mapped \<and>
          0 < sint (tt_now + threshold - mapped)))"
  by (auto simp: isAboutToUnderflow_def word_sless_alt split: option.splits)

theorem isAboutToUnderflow_result_witness:
  "isAboutToUnderflow (Some 2000) (\<lambda>t pts. Some (pts + word_of_nat t))
     (example_pump\<lparr>last_queued_pts_valid := True, last_ts_transform_valid := True,
                   last_queued_pts := 1000\<rparr>) 50 \<and>
   \<not> isAboutToUnderflow (Some 2000) (\<lambda>t pts. Some (pts + word_of_nat t)) example_pump 50"
  using isAboutToUnderflow_result[of "Some 2000" "\<lambda>t pts. Some (pts + word_of_nat t)"
      "example_pump\<lparr>last_queued_pts_valid := True, last_ts_transform_valid := True,
                    last_queued_pts := 1000\<rparr>" 50]
    isAboutToUnderflow_result[of "Some 2000" "\<lambda>t pts. Some (pts + word_of_nat t)"
      example_pump 50]
  by (simp add: example_pump_def new_AAH_DecoderPump_def)

section \<open>Properties of the substream reassembler\<close>

subsection \<open>Bytes, lengths and the header\<close>

lemma unat_byte_lt: "unat (b :: byte) < 256"
  using unsigned_less[of b, where 'a=nat] by simp

lemma U32_AT_lt: "U32_AT buf off < 2 ^ 32"
proof -
  have "unat (buf ! off) < 256" "unat (buf ! (off + 1)) < 256"
       "unat (buf ! (off + 2)) < 256" "unat (buf ! (off + 3)) < 256"
    by (rule unat_byte_lt)+
  then show ?thesis unfolding U32_AT_def by simp
qed

lemma U32_AT_append: "off + 4 \<le> length hdr \<Longrightarrow> U32_AT (hdr @ x) off = U32_AT hdr off"
  by (simp add: U32_AT_def nth_append)

lemma add32_small: "a + b < 2 ^ 32 \<Longrightarrow> add32 a b = a + b"
  by (simp add: add32_def)

lemma sub32_small:
  assumes "b \<le> a" "a < 2 ^ 32"
  shows "sub32 a b = a - b"
proof -
  have b: "b mod 2 ^ 32 = b" using assms by simp
  have e: "a + 2 ^ 32 - b = (a - b) + 2 ^ 32" using assms by simp
  have l: "a - b < 2 ^ 32" using assms by simp
  have "sub32 a b = (a + 2 ^ 32 - b) mod 2 ^ 32"
    unfolding sub32_def b ..
  also have "\<dots> = ((a - b) + 2 ^ 32) mod 2 ^ 32"
    unfolding e ..
  also have "\<dots> = (a - b) mod 2 ^ 32"
    by (rule mod_add_self2)
  also have "\<dots> = a - b"
    using l by (rule mod_less)
  finally show ?thesis .
qed

lemma header_overhead_ge: "audio_offset buf + 3 \<le> header_overhead buf" "6 \<le> audio_offset buf"
  by (simp_all add: header_overhead_def audio_offset_def)

lemma header_prefix:
  assumes "header_overhead (hdr @ xs) \<le> length hdr"
  shows "audio_offset (hdr @ xs) = audio_offset hdr"
    and "ts_valid_flag (hdr @ xs) = ts_valid_flag hdr"
    and "aux_length_flag (hdr @ xs) = aux_length_flag hdr"
    and "rap_flag (hdr @ xs) = rap_flag hdr"
    and "header_overhead (hdr @ xs) = header_overhead hdr"
    and "declared_aux_length (hdr @ xs) = declared_aux_length hdr"
    and "declared_total_length (hdr @ xs) = declared_total_length hdr"
    and "valid_audio_header s (hdr @ xs) = valid_audio_header s hdr"
    and "i < length hdr \<Longrightarrow> (hdr @ xs) ! i = hdr ! i"
proof -
  have l9: "9 \<le> length hdr"
    using assms header_overhead_ge[of "hdr @ xs"] by simp
  have n: "(hdr @ xs) ! i = hdr ! i" if "i < length hdr" for i
    using that by (simp add: nth_append)
  have f1: "ts_valid_flag (hdr @ xs) = ts_valid_flag hdr"
           "ts_transform_flag (hdr @ xs) = ts_transform_flag hdr"
    using l9 by (simp_all add: ts_valid_flag_def ts_transform_flag_def n)
  then have o: "audio_offset (hdr @ xs) = audio_offset hdr"
    by (simp add: audio_offset_def)
  have lo: "audio_offset hdr + 3 \<le> length hdr"
    using assms header_overhead_ge(1)[of "hdr @ xs"] o by simp
  have fl: "(hdr @ xs) ! (audio_offset hdr + 1) = hdr ! (audio_offset hdr + 1)"
    using lo by (intro n) simp
  have a: "aux_length_flag (hdr @ xs) = aux_length_flag hdr"
    using fl by (simp add: aux_length_flag_def o)
  have h: "header_overhead (hdr @ xs) = header_overhead hdr"
    by (simp add: header_overhead_def o a)
  have da: "declared_aux_length (hdr @ xs) = declared_aux_length hdr"
  proof (cases "aux_length_flag hdr")
    case True
    then have "audio_offset hdr + 3 + 4 \<le> length hdr"
      using assms h by (simp add: header_overhead_def)
    then show ?thesis by (simp add: declared_aux_length_def a o U32_AT_append)
  next
    case False
    then show ?thesis by (simp add: declared_aux_length_def a)
  qed
  have dt: "declared_total_length (hdr @ xs) = declared_total_length hdr"
    using l9 by (simp add: declared_total_length_def U32_AT_append)
  have c: "(hdr @ xs) ! audio_offset hdr = hdr ! audio_offset hdr"
    using lo by (intro n) simp
  show "audio_offset (hdr @ xs) = audio_offset hdr" by (rule o)
  show "ts_valid_flag (hdr @ xs) = ts_valid_flag hdr" by (rule f1)
  show "aux_length_flag (hdr @ xs) = aux_length_flag hdr" by (rule a)
  show "rap_flag (hdr @ xs) = rap_flag hdr" using fl by (simp add: rap_flag_def o)
  show "header_overhead (hdr @ xs) = header_overhead hdr" by (rule h)
  show "declared_aux_length (hdr @ xs) = declared_aux_length hdr" by (rule da)
  show "declared_total_length (hdr @ xs) = declared_total_length hdr" by (rule dt)
  show "valid_audio_header s (hdr @ xs) = valid_audio_header s hdr"
  proof -
    have z: "(hdr @ xs) ! 0 = hdr ! 0" "(hdr @ xs) ! Suc 0 = hdr ! Suc 0"
      using l9 by (auto simp: nth_append)
    show ?thesis
      using assms h by (simp add: valid_audio_header_def o da dt c z)
  qed
  show "i < length hdr \<Longrightarrow> (hdr @ xs) ! i = hdr ! i" by (rule n)
qed

lemma parse_valid:
  assumes "valid_audio_header s buf"
  shows "parseTRTPHeader s buf ts_lower = Inr (header_fields buf ts_lower)"
proof -
  from assms have len: "audio_offset buf + 3 \<le> length buf"
    and v: "buf ! 0 = 0x01" and k: "drop_bit 4 (buf ! 1) AND 0xF = kHeaderTypeAudio"
    and c: "codec_acceptable s (buf ! audio_offset buf)"
    and t: "audio_offset buf + 3 \<le> declared_total_length buf"
    by (auto simp: valid_audio_header_def header_overhead_def)
  have m: "\<not> (substream_details_known s \<and> kHeaderTypeAudio \<noteq> substream_type s)"
    using c by (auto simp: codec_acceptable_def)
  show ?thesis
  proof (cases "ts_valid_flag buf"; cases "ts_transform_flag buf")
  qed (use len v k m t in \<open>simp_all add: parseTRTPHeader_def Let_def audio_offset_def
        ts_valid_flag_def ts_transform_flag_def declared_total_length_def header_fields_def\<close>)
qed

lemma header_prefix_exact:
  assumes "header_overhead hdr \<le> length hdr"
  shows "header_overhead (hdr @ xs) \<le> length hdr"
proof -
  have l9: "9 \<le> length hdr"
    using assms header_overhead_ge[of hdr] by simp
  have n: "(hdr @ xs) ! i = hdr ! i" if "i < length hdr" for i
    using that by (simp add: nth_append)
  have f1: "ts_valid_flag (hdr @ xs) = ts_valid_flag hdr"
           "ts_transform_flag (hdr @ xs) = ts_transform_flag hdr"
    using l9 by (simp_all add: ts_valid_flag_def ts_transform_flag_def n)
  then have o: "audio_offset (hdr @ xs) = audio_offset hdr"
    by (simp add: audio_offset_def)
  have lo: "audio_offset hdr + 3 \<le> length hdr"
    using assms header_overhead_ge(1)[of hdr] by simp
  have fl: "(hdr @ xs) ! (audio_offset hdr + 1) = hdr ! (audio_offset hdr + 1)"
    using lo by (intro n) simp
  have a: "aux_length_flag (hdr @ xs) = aux_length_flag hdr"
    using fl by (simp add: aux_length_flag_def o)
  have h: "header_overhead (hdr @ xs) = header_overhead hdr"
    by (simp add: header_overhead_def o a)
  show ?thesis using assms h by simp
qed

lemma header_fields_prefix:
  assumes "header_overhead (hdr @ xs) \<le> length hdr"
  shows "header_fields (hdr @ xs) ts = header_fields hdr ts"
proof -
  note hp = header_prefix[OF assms]
  have l: "audio_offset hdr + 3 \<le> length hdr" "9 \<le> length hdr"
    using assms hp(5) header_overhead_ge[of hdr] by simp_all
  have "U32_AT (hdr @ xs) 6 = U32_AT hdr 6" if "ts_valid_flag hdr"
    using that l by (intro U32_AT_append) (simp add: audio_offset_def)
  then show ?thesis
    using l by (simp add: header_fields_def hp nth_append)
qed

subsection \<open>Storing the bytes of a unit\<close>

lemma setupSubstreamType_acceptable:
  "codec_acceptable s c \<Longrightarrow> fst (setupSubstreamType s kHeaderTypeAudio c)"
  by (auto simp: codec_acceptable_def setupSubstreamType_def)

lemma setupSubstreamType_fields:
  "aux_data_in_progress (snd (setupSubstreamType s t c)) = aux_data_in_progress s"
  "waiting_for_rap (snd (setupSubstreamType s t c)) = waiting_for_rap s"
  "codec_mime_type (snd (setupSubstreamType s t c)) = codec_mime_type s"
  by (simp_all add: setupSubstreamType_def)

lemma storePayloadStart_accumulating:
  assumes v: "valid_audio_header s hdr"
      and exact: "length hdr = header_overhead hdr"
      and rap: "rap_flag hdr"
      and nz: "header_overhead hdr + declared_aux_length hdr < declared_total_length hdr"
      and idle: "aux_data_in_progress s = []"
      and fit: "length xs \<le> declared_total_length hdr - header_overhead hdr"
  shows "storePayloadStart True s (hdr @ xs) (header_fields hdr ts_lower) =
         Inr (Stored, accumulating s hdr ts_lower xs)"
proof -
  let ?A = "declared_aux_length hdr"
  let ?T = "declared_total_length hdr"
  let ?hl = "header_overhead hdr"
  let ?E = "?T - ?hl - ?A"
  have T: "?T < 2 ^ 32" unfolding declared_total_length_def by (rule U32_AT_lt)
  have acc: "fst (setupSubstreamType s kHeaderTypeAudio (hdr ! audio_offset hdr))"
    using v by (simp add: valid_audio_header_def setupSubstreamType_acceptable)
  obtain s1 where st: "setupSubstreamType s kHeaderTypeAudio (hdr ! audio_offset hdr) = (True, s1)"
    using acc by (cases "setupSubstreamType s kHeaderTypeAudio (hdr ! audio_offset hdr)") auto
  have s1: "aux_data_in_progress s1 = []" "codec_mime_type s1 = codec_mime_type s"
    using setupSubstreamType_fields(1,3)[of s kHeaderTypeAudio "hdr ! audio_offset hdr"] st idle
    by simp_all
  have rp: "hdr ! (audio_offset hdr + 1) AND kFlag_RandomAccessPoint \<noteq> 0"
    using rap by (simp add: rap_flag_def)
  have a1: "add32 ?A ?hl = ?A + ?hl" using nz T by (intro add32_small) simp
  have e1: "sub32 (sub32 ?T ?hl) ?A = ?E"
    using nz T by (simp add: sub32_small)
  have a2: "add32 ?E ?A = ?E + ?A" using nz T by (intro add32_small) simp
  have u: "aux_length_flag hdr \<Longrightarrow> U32_AT (hdr @ xs) (audio_offset hdr + 3) = ?A"
    using exact by (simp add: declared_aux_length_def header_overhead_def U32_AT_append)
  show ?thesis
  proof (cases "aux_length_flag hdr")
    case True
    have hl: "?hl = audio_offset hdr + 7" "hdr ! (audio_offset hdr + 1) AND kFlag_AuxLengthPresent \<noteq> 0"
      using True by (simp_all add: header_overhead_def aux_length_flag_def)
    show ?thesis
      using True st s1 rp u nz fit exact hl T
      apply (simp add: storePayloadStart_def header_fields_def Let_def accumulating_def
          add32_small sub32_small split: option.splits)
      apply arith?
      done
  next
    case False
    have hl: "?hl = audio_offset hdr + 3" "hdr ! (audio_offset hdr + 1) AND kFlag_AuxLengthPresent = 0"
       "?A = 0"
      using False by (simp_all add: header_overhead_def aux_length_flag_def declared_aux_length_def)
    show ?thesis
      using False st s1 rp nz fit exact hl T
      apply (simp add: storePayloadStart_def header_fields_def Let_def accumulating_def
          add32_small sub32_small split: option.splits)
      apply arith?
      done
  qed
qed

lemma accumulating_simps:
  "aux_data_expected_size (accumulating s hdr ts xs) = declared_aux_length hdr"
  "expected_buffer_size (accumulating s hdr ts xs) =
     declared_total_length hdr - header_overhead hdr - declared_aux_length hdr"
  "aux_data_in_progress (accumulating s hdr ts xs) = take (declared_aux_length hdr) xs"
  "buffer_filled (accumulating s hdr ts xs) = length xs - declared_aux_length hdr"
  "status (accumulating s hdr ts xs) = status s"
  by (simp_all add: accumulating_def Let_def setupSubstreamType_def split: option.splits)

lemma buffer_of_accumulating:
  "buffer_in_progress (accumulating s hdr ts xs) = Some (accumulating_buffer s hdr ts xs)"
  by (simp add: accumulating_def accumulating_buffer_def Let_def split: option.splits)

lemma storePayloadCont_accumulating:
  assumes part: "length xs < declared_total_length hdr - header_overhead hdr"
      and fit: "length xs + length f \<le> declared_total_length hdr - header_overhead hdr"
      and nz: "header_overhead hdr + declared_aux_length hdr < declared_total_length hdr"
  shows "storePayloadCont (accumulating s hdr ts xs) (accumulating_buffer s hdr ts xs) f =
         Inr (if length xs < declared_aux_length hdr \<and>
                 length xs + length f \<le> declared_aux_length hdr
              then Stored_aux_only else Stored,
              accumulating s hdr ts (xs @ f))"
proof (cases "length xs < declared_aux_length hdr")
  case True
  show ?thesis
  proof (cases "length xs + length f \<le> declared_aux_length hdr")
    case le: True
    show ?thesis
      using True le part fit nz
      apply (simp add: storePayloadCont_def accumulating_simps Let_def min_def)
      apply (auto simp: accumulating_def Let_def split: option.splits)
      done
  next
    case gt: False
    show ?thesis
      using True gt part fit nz
      apply (simp add: storePayloadCont_def accumulating_simps Let_def min_def)
      apply (auto simp: accumulating_def Let_def accumulating_buffer_def split: option.splits)
      done
  qed
next
  case False
  show ?thesis
    using False part fit nz
    apply (simp add: storePayloadCont_def accumulating_simps Let_def min_def)
    apply (auto simp: accumulating_def Let_def accumulating_buffer_def split: option.splits)
    done
qed

lemma processPayloadStart_accumulating:
  assumes ok: "status s = OK"
      and idle: "buffer_in_progress s = None" "aux_data_in_progress s = []"
      and v: "valid_audio_header s hdr"
      and exact: "length hdr = header_overhead hdr"
      and rap: "rap_flag hdr"
      and nz: "header_overhead hdr + declared_aux_length hdr < declared_total_length hdr"
      and alloc: "alloc_MediaBuffer env"
      and fit: "length xs \<le> declared_total_length hdr - header_overhead hdr"
  shows "parseTRTPHeader s (hdr @ xs) ts = Inr (header_fields hdr ts)"
    and "storePayloadStart (alloc_MediaBuffer env) s (hdr @ xs) (header_fields hdr ts) =
           Inr (Stored, accumulating s hdr ts xs)"
    and "processPayloadStart env s (hdr @ xs) ts =
           (if length xs = declared_total_length hdr - header_overhead hdr
            then processCompletedBuffer env (accumulating s hdr ts xs)
            else Inr (accumulating s hdr ts xs))"
proof -
  have le: "header_overhead (hdr @ xs) \<le> length hdr"
    using exact by (intro header_prefix_exact) simp
  have v': "valid_audio_header s (hdr @ xs)"
    using header_prefix(8)[OF le, where s = s] v by simp
  show p: "parseTRTPHeader s (hdr @ xs) ts = Inr (header_fields hdr ts)"
    using parse_valid[OF v', of ts] header_fields_prefix[OF le] by simp
  show st: "storePayloadStart (alloc_MediaBuffer env) s (hdr @ xs) (header_fields hdr ts) =
           Inr (Stored, accumulating s hdr ts xs)"
    using storePayloadStart_accumulating[OF v exact rap nz idle(2) fit] alloc by simp
  show "processPayloadStart env s (hdr @ xs) ts =
           (if length xs = declared_total_length hdr - header_overhead hdr
            then processCompletedBuffer env (accumulating s hdr ts xs)
            else Inr (accumulating s hdr ts xs))"
    using ok idle(1) p st fit nz
    by (auto simp: processPayloadStart_def shouldAbort_def accumulating_simps)
qed

lemma processPayloadCont_accumulating:
  assumes ok: "status s = OK"
      and part: "length xs < declared_total_length hdr - header_overhead hdr"
      and fit: "length xs + length f \<le> declared_total_length hdr - header_overhead hdr"
      and nz: "header_overhead hdr + declared_aux_length hdr < declared_total_length hdr"
  shows "processPayloadCont env (accumulating s hdr ts xs) f =
           (if length xs + length f = declared_total_length hdr - header_overhead hdr
            then processCompletedBuffer env (accumulating s hdr ts (xs @ f))
            else Inr (accumulating s hdr ts (xs @ f)))"
  using ok part fit nz storePayloadCont_accumulating[OF part fit nz, of s ts]
  by (auto simp: processPayloadCont_def shouldAbort_def accumulating_simps buffer_of_accumulating)

lemma processPayloadConts_accumulating:
  assumes ok: "status s = OK"
      and nz: "header_overhead hdr + declared_aux_length hdr < declared_total_length hdr"
      and part: "length xs + length (concat fs) < declared_total_length hdr - header_overhead hdr"
  shows "processPayloadConts env (accumulating s hdr ts xs) fs =
           Inr (accumulating s hdr ts (xs @ concat fs))"
  using part
proof (induction fs arbitrary: xs)
  case Nil
  then show ?case by simp
next
  case (Cons f fs)
  have "processPayloadCont env (accumulating s hdr ts xs) f = Inr (accumulating s hdr ts (xs @ f))"
    using processPayloadCont_accumulating[OF ok _ _ nz, of xs f env ts] Cons.prems by simp
  moreover have "processPayloadConts env (accumulating s hdr ts (xs @ f)) fs =
           Inr (accumulating s hdr ts ((xs @ f) @ concat fs))"
    using Cons.prems by (intro Cons.IH) simp
  ultimately show ?case by simp
qed

lemma processPayloadConts_append:
  "processPayloadConts env s (fs @ gs) =
     (case processPayloadConts env s fs of Inl e \<Rightarrow> Inl e | Inr s' \<Rightarrow> processPayloadConts env s' gs)"
  by (induction fs arbitrary: s) (auto split: sum.splits)

lemma processCompletedBuffer_idle:
  "processCompletedBuffer env u = Inr s' \<Longrightarrow> buffer_in_progress s' = None"
  by (auto simp: processCompletedBuffer_def cleanupBufferInProgress_def
      split: if_splits option.splits sum.splits prod.splits bool.splits)

subsection \<open>A unit in one fragment\<close>



lemma example_substream_facts:
  "status example_substream = OK"
  "buffer_in_progress example_substream = None"
  "aux_data_in_progress example_substream = []"
  "\<not> substream_details_known example_substream"
  "waiting_for_rap example_substream"
  by (simp_all add: example_substream_def new_Substream_def cleanupBufferInProgress_def)





lemma processPayloadConts_idle:
  "buffer_in_progress s = None \<Longrightarrow> processPayloadConts env s fs = Inr s"
  by (induction fs) (simp_all add: processPayloadCont_def)

subsection \<open>A unit in several fragments\<close>

text \<open>
  C4. An idle substream that is not in error takes a valid header \<open>hdr\<close> with the
  random-access flag, then aux data and payload of exactly the declared sizes, the
  payload not empty. Delivered at once (\<open>hdr @ aux @ payload\<close> as one fragment start),
  the bytes are stored and the state \<open>u\<close> goes to \<open>processCompletedBuffer\<close>. Delivered in
  pieces (\<open>hdr @ f0\<close> as the fragment start, then the continuations \<open>fs\<close>, then a last
  continuation \<open>fl\<close> that is not empty, the pieces making up \<open>aux @ payload\<close>), the
  substream keeps accumulating until the last continuation, which stores its bytes and
  leaves the very same state \<open>u\<close> to go to \<open>processCompletedBuffer\<close>. In \<open>u\<close> the buffer
  holds the payload and the aux data are \<open>aux\<close>, and the two deliveries end in the same
  result, also when further continuations \<open>rest\<close> follow the one that completes the
  unit: with no buffer in progress they are skipped.
\<close>

theorem multi_fragment_unit:
  assumes ok: "status s = OK"
      and idle: "buffer_in_progress s = None \<and> aux_data_in_progress s = []"
      and v: "valid_audio_header s hdr"
      and exact: "length hdr = header_overhead hdr"
      and rap: "rap_flag hdr"
      and alloc: "alloc_MediaBuffer env"
      and la: "length aux = declared_aux_length hdr"
      and lp: "length payload =
                 declared_total_length hdr - header_overhead hdr - declared_aux_length hdr"
      and ne: "payload \<noteq> []"
      and frag: "f0 @ concat fs @ fl = aux @ payload"
      and last: "fl \<noteq> []"
  shows "\<exists>u b s1 sm bm.
           storePayloadStart (alloc_MediaBuffer env) s (hdr @ aux @ payload)
             (header_fields hdr ts) = Inr (Stored, u) \<and>
           processPayloadStart env s (hdr @ aux @ payload) ts = processCompletedBuffer env u \<and>
           processPayloadStart env s (hdr @ f0) ts = Inr s1 \<and>
           processPayloadConts env s1 fs = Inr sm \<and>
           buffer_in_progress sm = Some bm \<and>
           storePayloadCont sm bm fl = Inr (Stored, u) \<and>
           processPayloadCont env sm fl = processCompletedBuffer env u \<and>
           buffer_in_progress u = Some b \<and> mb_data b = payload \<and>
           aux_data_in_progress u = aux \<and>
           processPayloadConts env s1 (fs @ [fl] @ rest) =
             processPayloadStart env s (hdr @ aux @ payload) ts \<and>
           (\<forall>s'. processPayloadStart env s (hdr @ aux @ payload) ts = Inr s' \<longrightarrow>
                 processPayloadConts env s' rest = Inr s')"
proof -
  let ?A = "declared_aux_length hdr"
  let ?R = "declared_total_length hdr - header_overhead hdr"
  have pl: "0 < length payload" using ne by simp
  have nz: "header_overhead hdr + ?A < declared_total_length hdr"
    using lp pl by simp
  have tot: "length (aux @ payload) = ?R" using la lp nz by simp
  have lens: "length f0 + length (concat fs) + length fl = ?R"
    using tot frag by (metis length_append add.assoc)
  have fl: "Suc 0 \<le> length fl" using last by (cases fl) simp_all
  let ?mid = "f0 @ concat fs"
  let ?u = "accumulating s hdr ts (aux @ payload)"
  have full: "?mid @ fl = aux @ payload" using frag by simp
  note single = processPayloadStart_accumulating[OF ok conjunct1[OF idle] conjunct2[OF idle]
      v exact rap nz alloc, of "aux @ payload" ts]
  have s1: "storePayloadStart (alloc_MediaBuffer env) s (hdr @ aux @ payload)
             (header_fields hdr ts) = Inr (Stored, ?u)"
    using single(2) tot by simp
  have s2: "processPayloadStart env s (hdr @ aux @ payload) ts = processCompletedBuffer env ?u"
    using single(3) tot by simp
  have m1: "processPayloadStart env s (hdr @ f0) ts = Inr (accumulating s hdr ts f0)"
    using processPayloadStart_accumulating(3)[OF ok conjunct1[OF idle] conjunct2[OF idle]
      v exact rap nz alloc, of f0 ts] lens fl by (simp split: if_splits)
  have m2: "processPayloadConts env (accumulating s hdr ts f0) fs =
            Inr (accumulating s hdr ts ?mid)"
    using lens fl by (intro processPayloadConts_accumulating[OF ok nz]) arith
  have part: "length ?mid < ?R" and fit: "length ?mid + length fl \<le> ?R"
    using lens fl by simp_all
  have m3: "storePayloadCont (accumulating s hdr ts ?mid) (accumulating_buffer s hdr ts ?mid) fl =
            Inr (Stored, ?u)"
    using storePayloadCont_accumulating[OF part fit nz, of s ts] lens nz lp full
    by (simp del: append_assoc) arith
  have m4: "processPayloadCont env (accumulating s hdr ts ?mid) fl = processCompletedBuffer env ?u"
    using processPayloadCont_accumulating[OF ok part fit nz, of env ts] lens full
    by (simp del: append_assoc)
  have d: "mb_data (accumulating_buffer s hdr ts (aux @ payload)) = payload"
    using la lp by (simp add: accumulating_buffer_def)
  have a: "aux_data_in_progress ?u = aux"
    using la by (simp add: accumulating_simps)
  have m6: "processPayloadConts env s' rest = Inr s'"
    if "processCompletedBuffer env ?u = Inr s'" for s'
    using processCompletedBuffer_idle[OF that] by (rule processPayloadConts_idle)
  have m5: "processPayloadConts env (accumulating s hdr ts f0) (fs @ [fl] @ rest) =
             processPayloadStart env s (hdr @ aux @ payload) ts"
    using m2 m4 s2 m6 by (simp add: processPayloadConts_append split: sum.splits)
  have m7: "\<forall>s'. processPayloadStart env s (hdr @ aux @ payload) ts = Inr s' \<longrightarrow>
                 processPayloadConts env s' rest = Inr s'"
    using m6 s2 by simp
  show ?thesis
    using s1 s2 m1 m2 m3 m4 m5 m7 d a buffer_of_accumulating[of s hdr ts ?mid]
      buffer_of_accumulating[of s hdr ts "aux @ payload"]
    by blast
qed

lemma example_aac_header_facts:
  "audio_offset example_aac_header = 6"
  "header_overhead example_aac_header = 13"
  "declared_aux_length example_aac_header = 8"
  "declared_total_length example_aac_header = 24"
  "rap_flag example_aac_header"
  "length example_aac_header = 13"
  by (simp_all add: example_aac_header_def audio_offset_def ts_valid_flag_def ts_transform_flag_def
      kFlag_TSValid_def kFlag_TSTransformPresent_def header_overhead_def aux_length_flag_def
      kFlag_AuxLengthPresent_def declared_aux_length_def declared_total_length_def U32_AT_def
      rap_flag_def kFlag_RandomAccessPoint_def)

lemma example_aac_valid: "valid_audio_header example_substream example_aac_header"
  by (simp add: valid_audio_header_def example_aac_header_facts codec_acceptable_def
      example_substream_facts)
     (simp add: example_aac_header_def kHeaderTypeAudio_def kCodecAACAudio_def)

theorem multi_fragment_unit_witness:
  "\<exists>u b s1 sm bm.
           storePayloadStart (alloc_MediaBuffer example_env) example_substream
             (example_aac_header @ example_aac_aux @ example_aac_payload)
             (header_fields example_aac_header 0) = Inr (Stored, u) \<and>
           processPayloadStart example_env example_substream
             (example_aac_header @ example_aac_aux @ example_aac_payload) 0 =
             processCompletedBuffer example_env u \<and>
           processPayloadStart example_env example_substream
             (example_aac_header @ [0, 0, 0xBB, 0x80, 0]) 0 = Inr s1 \<and>
           processPayloadConts example_env s1 [[0, 0, 2, 0x21]] = Inr sm \<and>
           buffer_in_progress sm = Some bm \<and>
           storePayloadCont sm bm [0x10, 0x05] = Inr (Stored, u) \<and>
           processPayloadCont example_env sm [0x10, 0x05] = processCompletedBuffer example_env u \<and>
           buffer_in_progress u = Some b \<and> mb_data b = example_aac_payload \<and>
           aux_data_in_progress u = example_aac_aux \<and>
           processPayloadConts example_env s1 ([[0, 0, 2, 0x21]] @ [[0x10, 0x05]] @ [[]]) =
             processPayloadStart example_env example_substream
               (example_aac_header @ example_aac_aux @ example_aac_payload) 0 \<and>
           (\<forall>s'. processPayloadStart example_env example_substream
                   (example_aac_header @ example_aac_aux @ example_aac_payload) 0 = Inr s' \<longrightarrow>
                 processPayloadConts example_env s' [[]] = Inr s')"
proof (rule multi_fragment_unit)
  show "status example_substream = OK" by (rule example_substream_facts)
  show "buffer_in_progress example_substream = None \<and> aux_data_in_progress example_substream = []"
    by (simp add: example_substream_facts)
  show "valid_audio_header example_substream example_aac_header" by (rule example_aac_valid)
  show "length example_aac_header = header_overhead example_aac_header"
    by (simp add: example_aac_header_facts)
  show "rap_flag example_aac_header" by (rule example_aac_header_facts)
  show "alloc_MediaBuffer example_env" by (simp add: example_env_def)
  show "length example_aac_aux = declared_aux_length example_aac_header"
    by (simp add: example_aac_header_facts example_aac_aux_def)
  show "length example_aac_payload =
          declared_total_length example_aac_header - header_overhead example_aac_header -
          declared_aux_length example_aac_header"
    by (simp add: example_aac_header_facts example_aac_payload_def)
  show "example_aac_payload \<noteq> []" by (simp add: example_aac_payload_def)
  show "[0, 0, 0xBB, 0x80, 0] @ concat [[0, 0, 2, 0x21]] @ [0x10, 0x05] =
        example_aac_aux @ example_aac_payload"
    by (simp add: example_aac_aux_def example_aac_payload_def)
  show "[0x10, 0x05 :: byte] \<noteq> []" by simp
qed

subsection \<open>The buffer in progress between calls\<close>

lemma setupSubstreamType_buffer:
  "buffer_in_progress (snd (setupSubstreamType s t c)) = buffer_in_progress s"
  by (simp add: setupSubstreamType_def)

lemma storePayloadStart_result:
  assumes r: "storePayloadStart a s buf h = Inr (out, s')"
      and idle: "buffer_in_progress s = None" "aux_data_in_progress s = []"
  shows "out \<noteq> Stored_aux_only"
    and "out \<noteq> Stored \<Longrightarrow> buffer_in_progress s' = None \<and> aux_data_in_progress s' = []"
    and "out = Stored \<Longrightarrow>
           \<exists>b. buffer_in_progress s' = Some b \<and> length (mb_data b) = expected_buffer_size s' \<and>
               length (aux_data_in_progress s') \<le> aux_data_expected_size s'"
proof -
  obtain k s1 where st: "setupSubstreamType s (hdr_header_type h) (hdr_codec_type h) = (k, s1)"
    by (cases "setupSubstreamType s (hdr_header_type h) (hdr_codec_type h)")
  have s1: "buffer_in_progress s1 = None" "aux_data_in_progress s1 = []"
    using setupSubstreamType_buffer[of s "hdr_header_type h" "hdr_codec_type h"]
      setupSubstreamType_fields(1)[of s "hdr_header_type h" "hdr_codec_type h"] st idle
    by simp_all
  define s2 where "s2 = (case decoder_pump s1 of None \<Rightarrow> s1
       | Some p \<Rightarrow> s1\<lparr>decoder_pump := Some (setRenderVolume p (hdr_volume h))\<rparr>)"
  have s2: "buffer_in_progress s2 = None" "aux_data_in_progress s2 = []"
    using s1 by (simp_all add: s2_def split: option.splits)
  have all: "out \<noteq> Stored_aux_only \<and>
     (out \<noteq> Stored \<longrightarrow> buffer_in_progress s' = None \<and> aux_data_in_progress s' = []) \<and>
     (out = Stored \<longrightarrow>
           (\<exists>b. buffer_in_progress s' = Some b \<and> length (mb_data b) = expected_buffer_size s' \<and>
               length (aux_data_in_progress s') \<le> aux_data_expected_size s'))"
    using r s1 s2 unfolding storePayloadStart_def st s2_def[symmetric] Let_def prod.case
    by (auto simp: cleanupBufferInProgress_def split: if_splits)
  show "out \<noteq> Stored_aux_only"
    and "out \<noteq> Stored \<Longrightarrow> buffer_in_progress s' = None \<and> aux_data_in_progress s' = []"
    and "out = Stored \<Longrightarrow>
           \<exists>b. buffer_in_progress s' = Some b \<and> length (mb_data b) = expected_buffer_size s' \<and>
               length (aux_data_in_progress s') \<le> aux_data_expected_size s'"
    using all by blast+
qed

lemma processCompletedBuffer_cleans:
  "processCompletedBuffer env u = Inr s' \<Longrightarrow> buffer_inv s'"
  by (auto simp: processCompletedBuffer_def cleanupBufferInProgress_def buffer_inv_def
      split: if_splits option.splits sum.splits prod.splits bool.splits)

lemma cleanupBufferInProgress_inv: "buffer_inv (cleanupBufferInProgress s)"
  by (simp add: buffer_inv_def cleanupBufferInProgress_def)

lemma processPayloadStart_cleanup:
  "\<not> shouldAbort s \<Longrightarrow> buffer_in_progress s \<noteq> None \<Longrightarrow>
   processPayloadStart env s buf ts = processPayloadStart env (cleanupBufferInProgress s) buf ts"
  by (simp add: processPayloadStart_def shouldAbort_def cleanupBufferInProgress_def)

lemma processPayloadStart_idle:
  "\<not> shouldAbort s \<Longrightarrow> buffer_in_progress s = None \<Longrightarrow>
   processPayloadStart env s buf ts =
     (case parseTRTPHeader s buf ts of
        Inl why \<Rightarrow> Inr s
      | Inr h \<Rightarrow>
          (case storePayloadStart (alloc_MediaBuffer env) s buf h of
             Inl e \<Rightarrow> Inl e
           | Inr (Stored, s1) \<Rightarrow>
               if buffer_filled s1 \<ge> expected_buffer_size s1
               then processCompletedBuffer env s1
               else Inr s1
           | Inr (_, s1) \<Rightarrow> Inr s1))"
  by (simp add: processPayloadStart_def)

lemma processPayloadStart_inv_idle:
  assumes na: "\<not> shouldAbort s"
      and idle: "buffer_in_progress s = None" "aux_data_in_progress s = []"
      and r: "processPayloadStart env s buf ts = Inr s'"
  shows "buffer_inv s'"
proof -
  note r0 = r[unfolded processPayloadStart_idle[OF na idle(1)]]
  have inv0: "buffer_inv s" using idle by (simp add: buffer_inv_def)
  show ?thesis
  proof (cases "parseTRTPHeader s buf ts")
    case (Inl why)
    then show ?thesis using r0 inv0 by simp
  next
    case (Inr h)
    show ?thesis
    proof (cases "storePayloadStart (alloc_MediaBuffer env) s buf h")
      case (Inl e)
      then show ?thesis using r0 Inr by simp
    next
      case st: (Inr res)
      obtain out s1 where res: "res = (out, s1)" by (cases res)
      note sr = storePayloadStart_result[OF st[unfolded res] idle]
      show ?thesis
      proof (cases "out = Stored")
        case True
        from sr(3)[OF True] obtain b where b: "buffer_in_progress s1 = Some b"
          "length (mb_data b) = expected_buffer_size s1"
          "length (aux_data_in_progress s1) \<le> aux_data_expected_size s1" by blast
        show ?thesis
        proof (cases "buffer_filled s1 \<ge> expected_buffer_size s1")
          case full: True
          then have "processCompletedBuffer env s1 = Inr s'"
            using r0 Inr st res True by simp
          then show ?thesis by (rule processCompletedBuffer_cleans)
        next
          case part: False
          then have "s' = s1"
            using r0 Inr st res True by simp
          then show ?thesis using b part by (simp add: buffer_inv_def)
        qed
      next
        case ns: False
        then have "s' = s1"
          using r0 Inr st res sr(1) by (cases out) simp_all
        then show ?thesis using sr(2)[OF ns] by (simp add: buffer_inv_def)
      qed
    qed
  qed
qed

lemma processPayloadStart_inv:
  assumes inv: "buffer_inv s" and r: "processPayloadStart env s buf ts = Inr s'"
  shows "buffer_inv s'"
proof (cases "shouldAbort s")
  case True
  then show ?thesis using inv r by (simp add: processPayloadStart_def)
next
  case False
  show ?thesis
  proof (cases "buffer_in_progress s")
    case None
    then have "aux_data_in_progress s = []" using inv by (simp add: buffer_inv_def)
    then show ?thesis using processPayloadStart_inv_idle[OF False None _ r] by simp
  next
    case (Some b)
    have na: "\<not> shouldAbort (cleanupBufferInProgress s)"
      using False by (simp add: shouldAbort_def cleanupBufferInProgress_def)
    have r': "processPayloadStart env (cleanupBufferInProgress s) buf ts = Inr s'"
      using processPayloadStart_cleanup[OF False, of env buf ts] Some r by simp
    show ?thesis
      by (rule processPayloadStart_inv_idle[OF na _ _ r'])
         (simp_all add: cleanupBufferInProgress_def)
  qed
qed

lemma storePayloadCont_result:
  assumes inv: "buffer_inv s" and b: "buffer_in_progress s = Some b"
  shows "\<exists>out s1. storePayloadCont s b buf = Inr (out, s1) \<and>
           (out = Stored_aux_only \<longrightarrow> buffer_inv s1) \<and>
           (out \<noteq> Stored_aux_only \<longrightarrow> out \<noteq> Stored \<longrightarrow> buffer_inv s1) \<and>
           (out = Stored \<longrightarrow> buffer_in_progress s1 \<noteq> None \<and>
              (buffer_filled s1 < expected_buffer_size s1 \<longrightarrow> buffer_inv s1))"
  using inv b
  by (auto simp: storePayloadCont_def buffer_inv_def Let_def cleanupBufferInProgress_def min_def)

lemma processPayloadCont_inv:
  assumes inv: "buffer_inv s" and r: "processPayloadCont env s buf = Inr s'"
  shows "buffer_inv s'"
proof (cases "shouldAbort s \<or> buffer_in_progress s = None")
  case True
  then show ?thesis using inv r by (auto simp: processPayloadCont_def split: if_splits)
next
  case False
  then obtain b where b: "buffer_in_progress s = Some b" by auto
  from storePayloadCont_result[OF inv b, of buf] obtain out s1 where
    st: "storePayloadCont s b buf = Inr (out, s1)"
    and o1: "out = Stored_aux_only \<Longrightarrow> buffer_inv s1"
    and o2: "out \<noteq> Stored_aux_only \<Longrightarrow> out \<noteq> Stored \<Longrightarrow> buffer_inv s1"
    and o3: "out = Stored \<Longrightarrow> buffer_filled s1 < expected_buffer_size s1 \<Longrightarrow> buffer_inv s1"
    by blast
  show ?thesis
  proof (cases out)
    case (Dropped why)
    then show ?thesis using False r b st o2 by (simp add: processPayloadCont_def)
  next
    case Stored_aux_only
    then show ?thesis using False r b st o1 by (simp add: processPayloadCont_def)
  next
    case Stored
    show ?thesis
    proof (cases "buffer_filled s1 \<ge> expected_buffer_size s1")
      case True
      then have "processCompletedBuffer env s1 = Inr s'"
        using False r b st Stored by (simp add: processPayloadCont_def)
      then show ?thesis by (rule processCompletedBuffer_cleans)
    next
      case part: False
      then have "s' = s1" using False r b st Stored by (simp add: processPayloadCont_def)
      then show ?thesis using o3[OF Stored] part by simp
    qed
  qed
qed

lemma run_call_inv: "buffer_inv s \<Longrightarrow> run_call c s = Inr s' \<Longrightarrow> buffer_inv s'"
proof (cases c)
  case (Payload_start env buf ts)
  assume "buffer_inv s" "run_call c s = Inr s'"
  then show ?thesis using Payload_start by (auto intro: processPayloadStart_inv)
next
  case (Payload_cont env buf)
  assume "buffer_inv s" "run_call c s = Inr s'"
  then show ?thesis using Payload_cont by (auto intro: processPayloadCont_inv)
next
  case (TS_transform tr)
  assume "buffer_inv s" "run_call c s = Inr s'"
  then show ?thesis using TS_transform
    by (auto simp: processTSTransform_def buffer_inv_def split: option.splits)
next
  case Shutdown
  assume "buffer_inv s" "run_call c s = Inr s'"
  then show ?thesis using Shutdown
    by (auto simp: Substream_shutdown_def cleanupDecoder_def cleanupBufferInProgress_def
        buffer_inv_def split: option.splits)
next
  case (Work_thread p)
  assume "buffer_inv s" "run_call c s = Inr s'"
  then show ?thesis using Work_thread
    by (auto simp: buffer_inv_def split: option.splits)
qed

lemma run_calls_inv: "buffer_inv s \<Longrightarrow> run_calls cs s = Inr s' \<Longrightarrow> buffer_inv s'"
proof (induction cs arbitrary: s)
  case Nil
  then show ?case by simp
next
  case (Cons c cs)
  then show ?case by (auto split: sum.splits dest: run_call_inv)
qed

text \<open>
  C10. Whatever calls have been made on a substream since its construction (fragment
  starts, continuations, transforms, shutdowns, with the work thread changing the pump
  in between), if a buffer is in progress afterwards then the aux data gathered are no
  longer than the declared aux size and the payload bytes filled are fewer than the
  declared payload size; and a continuation, whatever bytes it brings, passes both
  \<^verbatim>\<open>CHECK\<close>s of \<open>processPayloadCont\<close>.
\<close>

theorem buffer_in_progress_bounds:
  assumes "run_calls calls (new_Substream ssrc0 pump0 type0 codec0) = Inr s"
      and "buffer_in_progress s = Some b"
  shows "length (aux_data_in_progress s) \<le> aux_data_expected_size s \<and>
         buffer_filled s < expected_buffer_size s \<and>
         (\<forall>buf e. storePayloadCont s b buf \<noteq> Inl e)"
proof -
  have "buffer_inv (new_Substream ssrc0 pump0 type0 codec0)"
    by (simp add: new_Substream_def cleanupBufferInProgress_def buffer_inv_def)
  then have inv: "buffer_inv s" using assms(1) by (rule run_calls_inv)
  then have "length (aux_data_in_progress s) \<le> aux_data_expected_size s \<and>
         buffer_filled s < expected_buffer_size s"
    using assms(2) by (simp add: buffer_inv_def)
  moreover have "storePayloadCont s b buf \<noteq> Inl e" for buf e
    using storePayloadCont_result[OF inv assms(2), of buf] by auto
  ultimately show ?thesis by blast
qed

theorem buffer_in_progress_bounds_witness:
  "length (aux_data_in_progress (accumulating example_substream example_aac_header 0 [0, 0, 0xBB]))
     \<le> aux_data_expected_size (accumulating example_substream example_aac_header 0 [0, 0, 0xBB]) \<and>
   buffer_filled (accumulating example_substream example_aac_header 0 [0, 0, 0xBB])
     < expected_buffer_size (accumulating example_substream example_aac_header 0 [0, 0, 0xBB]) \<and>
   (\<forall>buf e. storePayloadCont (accumulating example_substream example_aac_header 0 [0, 0, 0xBB])
               (accumulating_buffer example_substream example_aac_header 0 [0, 0, 0xBB]) buf
             \<noteq> Inl e)"
proof (rule buffer_in_progress_bounds)
  have "processPayloadStart example_env example_substream (example_aac_header @ [0, 0, 0xBB]) 0 =
        Inr (accumulating example_substream example_aac_header 0 [0, 0, 0xBB])"
    using processPayloadStart_accumulating(3)[OF example_substream_facts(1,2,3) example_aac_valid,
        of example_env "[0, 0, 0xBB]" 0]
    by (simp add: example_aac_header_facts example_env_def)
  then show "run_calls [Payload_start example_env (example_aac_header @ [0, 0, 0xBB]) 0]
          (new_Substream 0 example_pump 0 0) =
        Inr (accumulating example_substream example_aac_header 0 [0, 0, 0xBB])"
    by (simp add: example_substream_def)
  show "buffer_in_progress (accumulating example_substream example_aac_header 0 [0, 0, 0xBB]) =
        Some (accumulating_buffer example_substream example_aac_header 0 [0, 0, 0xBB])"
    by (rule buffer_of_accumulating)
qed

subsection \<open>The gate that waits for a random-access point\<close>







subsection \<open>Format changes\<close>

lemma cleanupDecoder_pump:
  "decoder_pump (cleanupDecoder s) = map_option (\<lambda>p. snd (shutdown p)) (decoder_pump s)"
  "substream_meta (cleanupDecoder s) = substream_meta s"
  by (simp_all add: cleanupDecoder_def split: option.splits)

text \<open>
  C9. A unit is complete on a substream that has metadata from an earlier unit. For
  MP3, the frame header of the unit gives sample rate and channel count; for AAC, the
  aux data give sample rate, channel count and, beyond their first eight bytes, the
  codec configuration. If what is derived differs from the metadata in place, the
  substream's pump is shut down, which leaves it without decoder, format and queued
  units, and the metadata take the derived values; if nothing differs, the pump is
  left alone and the metadata stay as they are. Either way the set-up succeeds.
\<close>

theorem format_change_resets_decoder:
  shows "(codec_type s = kCodecMPEG1Audio \<and>
          substream_meta s = Some m \<and> kKeySampleRate m = Some psr \<and>
          kKeyChannelCount m = Some pch \<and>
          buffer_in_progress s = Some b \<and> 4 \<le> length (mb_data b) \<and>
          GetMPEGAudioFrameSize env (U32_AT (mb_data b) 0) = Some (sr, ch) \<longrightarrow>
          (\<exists>s'. setupSubstreamMeta env s = Inr (True, s') \<and>
            (if sr \<noteq> psr \<or> ch \<noteq> pch
             then decoder_pump s' = map_option (\<lambda>p. snd (shutdown p)) (decoder_pump s) \<and>
                  substream_meta s' =
                    Some (m\<lparr>kKeyChannelCount := Some ch, kKeySampleRate := Some sr\<rparr>)
             else decoder_pump s' = decoder_pump s \<and> substream_meta s' = Some m))) \<and>
         (codec_type t = kCodecAACAudio \<and>
          substream_meta t = Some n \<and> kKeySampleRate n = Some qsr \<and>
          kKeyChannelCount n = Some qch \<and> 8 \<le> length (aux_data_in_progress t) \<longrightarrow>
          (\<exists>t'. setupSubstreamMeta env t = Inr (True, t') \<and>
            (if kKeySampleRate (derived_aac_meta (aux_data_in_progress t)) \<noteq> Some qsr \<or>
                kKeyChannelCount (derived_aac_meta (aux_data_in_progress t)) \<noteq> Some qch \<or>
                kKeyESDS (derived_aac_meta (aux_data_in_progress t)) \<noteq> kKeyESDS n
             then decoder_pump t' = map_option (\<lambda>p. snd (shutdown p)) (decoder_pump t) \<and>
                  substream_meta t' = Some (derived_aac_meta (aux_data_in_progress t))
             else decoder_pump t' = decoder_pump t \<and> substream_meta t' = Some n))) \<and>
         \<not> decoder (snd (shutdown p)) \<and> format (snd (shutdown p)) = None \<and>
         in_queue (snd (shutdown p)) = []"
proof -
  have distinct: "kCodecAACAudio \<noteq> kCodecMPEG1Audio"
    by (simp add: kCodecAACAudio_def kCodecMPEG1Audio_def)
  have p1: "\<exists>s'. setupSubstreamMeta env s = Inr (True, s') \<and>
            (if sr \<noteq> psr \<or> ch \<noteq> pch
             then decoder_pump s' = map_option (\<lambda>p. snd (shutdown p)) (decoder_pump s) \<and>
                  substream_meta s' =
                    Some (m\<lparr>kKeyChannelCount := Some ch, kKeySampleRate := Some sr\<rparr>)
             else decoder_pump s' = decoder_pump s \<and> substream_meta s' = Some m)"
    if mp3: "codec_type s = kCodecMPEG1Audio"
      and prior: "substream_meta s = Some m" "kKeySampleRate m = Some psr"
                 "kKeyChannelCount m = Some pch"
      and unit: "buffer_in_progress s = Some b" "4 \<le> length (mb_data b)"
      and parsed: "GetMPEGAudioFrameSize env (U32_AT (mb_data b) 0) = Some (sr, ch)"
    using that
    by (auto simp: setupSubstreamMeta_def setupMP3SubstreamMeta_def cleanupDecoder_pump)
  have p2: "\<exists>t'. setupSubstreamMeta env t = Inr (True, t') \<and>
            (if kKeySampleRate (derived_aac_meta (aux_data_in_progress t)) \<noteq> Some qsr \<or>
                kKeyChannelCount (derived_aac_meta (aux_data_in_progress t)) \<noteq> Some qch \<or>
                kKeyESDS (derived_aac_meta (aux_data_in_progress t)) \<noteq> kKeyESDS n
             then decoder_pump t' = map_option (\<lambda>p. snd (shutdown p)) (decoder_pump t) \<and>
                  substream_meta t' = Some (derived_aac_meta (aux_data_in_progress t))
             else decoder_pump t' = decoder_pump t \<and> substream_meta t' = Some n)"
    if aac: "codec_type t = kCodecAACAudio"
      and prior': "substream_meta t = Some n" "kKeySampleRate n = Some qsr"
                  "kKeyChannelCount n = Some qch"
      and aux: "8 \<le> length (aux_data_in_progress t)"
    using that distinct
    by (auto simp: setupSubstreamMeta_def setupAACSubstreamMeta_def cleanupDecoder_pump
        derived_aac_meta_def Let_def split: option.splits)
  have p3: "\<not> decoder (snd (shutdown p)) \<and> format (snd (shutdown p)) = None \<and>
         in_queue (snd (shutdown p)) = []"
    by (simp add: shutdown_def shutdown_l_def)
  show ?thesis using p1 p2 p3 by blast
qed

theorem format_change_resets_decoder_witness:
  "(codec_type example_mp3_ready = kCodecMPEG1Audio \<and>
    substream_meta example_mp3_ready = Some example_mp3_meta \<and>
    kKeySampleRate example_mp3_meta = Some 44100 \<and>
    kKeyChannelCount example_mp3_meta = Some 2 \<and>
    buffer_in_progress example_mp3_ready = Some example_mp3_unit \<and>
    GetMPEGAudioFrameSize example_env_48k (U32_AT (mb_data example_mp3_unit) 0) =
      Some (48000, 2)) \<and>
   (\<exists>s'. setupSubstreamMeta example_env_48k example_mp3_ready = Inr (True, s') \<and>
      decoder_pump s' = map_option (\<lambda>p. snd (shutdown p)) (decoder_pump example_mp3_ready) \<and>
      substream_meta s' =
        Some (example_mp3_meta\<lparr>kKeyChannelCount := Some 2, kKeySampleRate := Some 48000\<rparr>)) \<and>
   (codec_type example_aac_ready = kCodecAACAudio \<and>
    substream_meta example_aac_ready = Some (derived_aac_meta example_aac_aux)) \<and>
   (\<exists>t'. setupSubstreamMeta example_env_48k example_aac_ready = Inr (True, t') \<and>
      decoder_pump t' = decoder_pump example_aac_ready \<and>
      substream_meta t' = Some (derived_aac_meta example_aac_aux))"
proof -
  have a: "codec_type example_mp3_ready = kCodecMPEG1Audio"
    by (simp add: example_mp3_ready_def example_after_rap_def)
  have b: "substream_meta example_mp3_ready = Some example_mp3_meta"
    "kKeySampleRate example_mp3_meta = Some 44100"
    "kKeyChannelCount example_mp3_meta = Some 2"
    by (simp_all add: example_mp3_ready_def example_after_rap_def example_mp3_meta_def)
  have c: "buffer_in_progress example_mp3_ready = Some example_mp3_unit"
        "4 \<le> length (mb_data example_mp3_unit)"
    by (simp_all add: example_mp3_ready_def example_mp3_unit_def)
  have d: "GetMPEGAudioFrameSize example_env_48k (U32_AT (mb_data example_mp3_unit) 0) =
        Some (48000, 2)"
    by (simp add: example_env_48k_def)
  have e: "codec_type example_aac_ready = kCodecAACAudio"
    by (simp add: example_aac_ready_def)
  have f: "substream_meta example_aac_ready = Some (derived_aac_meta example_aac_aux)"
        "kKeySampleRate (derived_aac_meta example_aac_aux) = Some 48000"
        "kKeyChannelCount (derived_aac_meta example_aac_aux) = Some 2"
    by (simp_all add: example_aac_ready_def derived_aac_meta_def example_aac_aux_def U32_AT_def)
  have g: "aux_data_in_progress example_aac_ready = example_aac_aux"
    "8 \<le> length example_aac_aux"
    by (simp_all add: example_aac_ready_def example_aac_aux_def)
  show ?thesis
    using a b c d e f g
      format_change_resets_decoder[of example_mp3_ready example_mp3_meta 44100 2
        example_mp3_unit example_env_48k 48000 2 example_aac_ready
        "derived_aac_meta example_aac_aux" 48000 2 example_running]
    by simp
qed

subsection \<open>Rejected fragment starts\<close>

lemma parse_rejections:
  "length buf < 6 \<Longrightarrow> parseTRTPHeader s buf ts = Inl Payload_too_short"
  "6 \<le> length buf \<Longrightarrow> buf ! 0 \<noteq> 0x01 \<Longrightarrow> parseTRTPHeader s buf ts = Inl Unexpected_version"
  "6 \<le> length buf \<Longrightarrow> buf ! 0 = 0x01 \<Longrightarrow> drop_bit 4 (buf ! 1) AND 0xF \<noteq> kHeaderTypeAudio \<Longrightarrow>
     parseTRTPHeader s buf ts = Inl Unhandled_header_type"
  by (simp_all add: parseTRTPHeader_def Let_def)

lemma storePayloadStart_codec_rejected:
  assumes "\<not> fst (setupSubstreamType s (hdr_header_type h) (hdr_codec_type h))"
  shows "storePayloadStart a s buf h = Inr (Dropped Codec_rejected, s)"
proof -
  have st: "setupSubstreamType s (hdr_header_type h) (hdr_codec_type h) = (False, s)"
    using assms by (auto simp: setupSubstreamType_def split: if_splits)
  show ?thesis
    unfolding storePayloadStart_def st Let_def prod.case by simp
qed

lemma storePayloadStart_dropped:
  assumes r: "storePayloadStart a s buf h = Inr (Dropped why, s')"
      and idle: "buffer_in_progress s = None"
  shows "buffer_in_progress s' = None \<and> status s' = status s \<and>
         substream_meta s' = substream_meta s \<and>
         (decoder_pump s' = decoder_pump s \<or>
          decoder_pump s' = map_option (\<lambda>p. p\<lparr>last_volume := hdr_volume h\<rparr>) (decoder_pump s))"
proof -
  obtain k s1 where st: "setupSubstreamType s (hdr_header_type h) (hdr_codec_type h) = (k, s1)"
    by (cases "setupSubstreamType s (hdr_header_type h) (hdr_codec_type h)")
  have s1: "buffer_in_progress s1 = None" "status s1 = status s"
    "substream_meta s1 = substream_meta s" "decoder_pump s1 = decoder_pump s"
    using st idle by (auto simp: setupSubstreamType_def split: if_splits)
  define s2 where "s2 = (case decoder_pump s1 of None \<Rightarrow> s1
       | Some p \<Rightarrow> s1\<lparr>decoder_pump := Some (setRenderVolume p (hdr_volume h))\<rparr>)"
  have s2: "buffer_in_progress s2 = None" "status s2 = status s"
    "substream_meta s2 = substream_meta s"
    "decoder_pump s2 = map_option (\<lambda>p. p\<lparr>last_volume := hdr_volume h\<rparr>) (decoder_pump s)"
    using s1 by (auto simp: s2_def setRenderVolume_def split: option.splits)
  show ?thesis
    using r s1 s2 unfolding storePayloadStart_def st s2_def[symmetric] Let_def prod.case
    by (auto simp: cleanupBufferInProgress_def split: if_splits)
qed

text \<open>
  C8, as the code has it. The substream is idle and not in error. A fragment start
  that the header parse rejects (too short for the header it announces, bad version,
  a header kind other than audio or other than the one established, a total length too
  short for the audio header) leaves the substream and its pump exactly as they were,
  and so does one whose codec is unsupported or differs from the established codec.
  A fragment start dropped later (at the gate, for its declared lengths, for a zero
  length unit, for extra data, for want of memory) leaves no buffer in progress, and
  leaves status, metadata and pump as they were but for the pump's volume, which may
  by then be the volume of the header.
\<close>

theorem rejected_start_effects:
  assumes ok: "status s = OK"
      and idle: "buffer_in_progress s = None"
  shows "(parseTRTPHeader s buf ts = Inl why \<longrightarrow> processPayloadStart env s buf ts = Inr s) \<and>
         (parseTRTPHeader s buf ts = Inr h \<and>
          \<not> fst (setupSubstreamType s (hdr_header_type h) (hdr_codec_type h)) \<longrightarrow>
          processPayloadStart env s buf ts = Inr s) \<and>
         (parseTRTPHeader s buf ts = Inr h \<and>
          storePayloadStart (alloc_MediaBuffer env) s buf h = Inr (Dropped why', s') \<longrightarrow>
          processPayloadStart env s buf ts = Inr s' \<and>
          buffer_in_progress s' = None \<and> status s' = status s \<and>
          substream_meta s' = substream_meta s \<and>
          (decoder_pump s' = decoder_pump s \<or>
           decoder_pump s' =
             map_option (\<lambda>p. p\<lparr>last_volume := hdr_volume h\<rparr>) (decoder_pump s)))"
proof -
  have na: "\<not> shouldAbort s" using ok by (simp add: shouldAbort_def)
  note u = processPayloadStart_idle[OF na idle]
  have a: "processPayloadStart env s buf ts = Inr s"
    if "parseTRTPHeader s buf ts = Inl why"
    unfolding u using that by simp
  have b: "processPayloadStart env s buf ts = Inr s"
    if "parseTRTPHeader s buf ts = Inr h"
      and "\<not> fst (setupSubstreamType s (hdr_header_type h) (hdr_codec_type h))"
    unfolding u
    using that storePayloadStart_codec_rejected[of s h "alloc_MediaBuffer env" buf]
    by simp
  have c: "processPayloadStart env s buf ts = Inr s' \<and>
          buffer_in_progress s' = None \<and> status s' = status s \<and>
          substream_meta s' = substream_meta s \<and>
          (decoder_pump s' = decoder_pump s \<or>
           decoder_pump s' =
             map_option (\<lambda>p. p\<lparr>last_volume := hdr_volume h\<rparr>) (decoder_pump s))"
    if p: "parseTRTPHeader s buf ts = Inr h"
      and d: "storePayloadStart (alloc_MediaBuffer env) s buf h = Inr (Dropped why', s')"
  proof -
    have "processPayloadStart env s buf ts = Inr s'"
      unfolding u using p d by simp
    then show ?thesis using storePayloadStart_dropped[OF d idle] by simp
  qed
  show ?thesis using a b c by blast
qed

lemma inconsistent_lengths:
  "parseTRTPHeader example_substream example_inconsistent_start 0 =
     Inr (header_fields example_inconsistent_start 0) \<and>
   storePayloadStart True example_substream example_inconsistent_start
     (header_fields example_inconsistent_start 0) =
     Inr (Dropped Aux_exceeds_length, example_after_inconsistent) \<and>
   processPayloadStart example_env example_substream example_inconsistent_start 0 =
     Inr example_after_inconsistent"
proof -
  have hf: "header_fields example_inconsistent_start 0 =
      \<lparr> hdr_header_type = kHeaderTypeAudio, hdr_ts_valid = False, hdr_trtp_len = 13,
        hdr_ts = 0, hdr_min_length = 9, hdr_parse_offset = 9, hdr_trtp_header_len = 9,
        hdr_codec_type = 3, hdr_flags = 0x18, hdr_volume = 0x80 \<rparr>"
    by (simp add: header_fields_def example_inconsistent_start_def audio_offset_def
        ts_valid_flag_def ts_transform_flag_def kFlag_TSValid_def kFlag_TSTransformPresent_def
        declared_total_length_def U32_AT_def)
  have p: "parseTRTPHeader example_substream example_inconsistent_start 0 =
     Inr (header_fields example_inconsistent_start 0)"
    unfolding hf
    by (simp add: parseTRTPHeader_def example_inconsistent_start_def Let_def U32_AT_def
        kHeaderTypeAudio_def kFlag_TSValid_def kFlag_TSTransformPresent_def
        example_substream_facts)
  have st: "storePayloadStart True example_substream example_inconsistent_start
     (header_fields example_inconsistent_start 0) =
     Inr (Dropped Aux_exceeds_length, example_after_inconsistent)"
    unfolding hf
    by (simp add: storePayloadStart_def setupSubstreamType_def example_substream_facts
        kCodecMPEG1Audio_def Let_def kFlag_AuxLengthPresent_def kFlag_RandomAccessPoint_def
        add32_def U32_AT_def example_inconsistent_start_def)
       (simp add: example_after_inconsistent_def example_substream_def new_Substream_def
        cleanupBufferInProgress_def setRenderVolume_def example_pump_def new_AAH_DecoderPump_def
        kCodecMPEG1Audio_def)
  have pr: "processPayloadStart example_env example_substream example_inconsistent_start 0 =
     Inr example_after_inconsistent"
    by (simp add: processPayloadStart_def shouldAbort_def example_substream_facts p
        st[unfolded example_env_def] example_env_def)
  show ?thesis using p st pr by simp
qed

theorem rejected_start_effects_witness:
  "parseTRTPHeader example_substream example_bad_version 0 = Inl Unexpected_version \<and>
   processPayloadStart example_env example_substream example_bad_version 0 =
     Inr example_substream \<and>
   parseTRTPHeader example_substream example_pcm_start 0 =
     Inr (header_fields example_pcm_start 0) \<and>
   \<not> fst (setupSubstreamType example_substream
            (hdr_header_type (header_fields example_pcm_start 0))
            (hdr_codec_type (header_fields example_pcm_start 0))) \<and>
   processPayloadStart example_env example_substream example_pcm_start 0 =
     Inr example_substream \<and>
   storePayloadStart (alloc_MediaBuffer example_env) example_substream
     example_inconsistent_start (header_fields example_inconsistent_start 0) =
     Inr (Dropped Aux_exceeds_length, example_after_inconsistent) \<and>
   processPayloadStart example_env example_substream example_inconsistent_start 0 =
     Inr example_after_inconsistent \<and>
   buffer_in_progress example_after_inconsistent = None \<and>
   status example_after_inconsistent = status example_substream \<and>
   substream_meta example_after_inconsistent = substream_meta example_substream"
proof -
  note ok = example_substream_facts(1)
  note idle = example_substream_facts(2)
  have e: "parseTRTPHeader example_substream example_bad_version 0 = Inl Unexpected_version"
    by (rule parse_rejections(2)) (simp_all add: example_bad_version_def)
  have hf: "header_fields example_pcm_start 0 =
      \<lparr> hdr_header_type = kHeaderTypeAudio, hdr_ts_valid = False, hdr_trtp_len = 13,
        hdr_ts = 0, hdr_min_length = 9, hdr_parse_offset = 9, hdr_trtp_header_len = 9,
        hdr_codec_type = 1, hdr_flags = 0x08, hdr_volume = 0xFF \<rparr>"
    by (simp add: header_fields_def example_pcm_start_def audio_offset_def
        ts_valid_flag_def ts_transform_flag_def kFlag_TSValid_def kFlag_TSTransformPresent_def
        declared_total_length_def U32_AT_def)
  have p: "parseTRTPHeader example_substream example_pcm_start 0 =
     Inr (header_fields example_pcm_start 0)"
    unfolding hf
    by (simp add: parseTRTPHeader_def example_pcm_start_def Let_def U32_AT_def
        kHeaderTypeAudio_def kFlag_TSValid_def kFlag_TSTransformPresent_def
        example_substream_facts)
  have c: "\<not> fst (setupSubstreamType example_substream
                 (hdr_header_type (header_fields example_pcm_start 0))
                 (hdr_codec_type (header_fields example_pcm_start 0)))"
    unfolding hf
    by (simp add: setupSubstreamType_def example_substream_facts kCodecMPEG1Audio_def
        kCodecAACAudio_def)
  have l: "parseTRTPHeader example_substream example_inconsistent_start 0 =
          Inr (header_fields example_inconsistent_start 0)"
       "storePayloadStart (alloc_MediaBuffer example_env) example_substream
          example_inconsistent_start (header_fields example_inconsistent_start 0) =
          Inr (Dropped Aux_exceeds_length, example_after_inconsistent)"
    using inconsistent_lengths by (simp_all add: example_env_def)
  show ?thesis
    using e p c l
      rejected_start_effects[OF ok idle, of example_bad_version 0 Unexpected_version example_env]
      rejected_start_effects[OF ok idle, of example_pcm_start 0 _ example_env
        "header_fields example_pcm_start 0"]
      rejected_start_effects[OF ok idle, of example_inconsistent_start 0 _ example_env
        "header_fields example_inconsistent_start 0" Aux_exceeds_length
        example_after_inconsistent]
    by simp
qed

text \<open>
  As worded, C8 has every one of these rejections leave all state unchanged. The fragment
  start \<open>example_inconsistent_start\<close> declares more aux data than its total length
  holds. It is dropped for that, after the substream has taken audio and MP3 as its
  kind and codec, has passed the volume 128 to the pump, and has noted the declared
  aux length.
\<close>

theorem inconsistent_lengths_counterexample:
  "parseTRTPHeader example_substream example_inconsistent_start 0 =
     Inr (header_fields example_inconsistent_start 0) \<and>
   storePayloadStart True example_substream example_inconsistent_start
     (header_fields example_inconsistent_start 0) =
     Inr (Dropped Aux_exceeds_length, example_after_inconsistent) \<and>
   processPayloadStart example_env example_substream example_inconsistent_start 0 =
     Inr example_after_inconsistent \<and>
   substream_details_known example_after_inconsistent \<noteq>
     substream_details_known example_substream \<and>
   aux_data_expected_size example_after_inconsistent \<noteq>
     aux_data_expected_size example_substream \<and>
   map_option last_volume (decoder_pump example_after_inconsistent) \<noteq>
     map_option last_volume (decoder_pump example_substream)"
  using inconsistent_lengths
  by (simp add: example_after_inconsistent_def example_substream_def new_Substream_def
      cleanupBufferInProgress_def example_pump_def new_AAH_DecoderPump_def)

end
